theory Spec2Isabelle
  imports Complex_Main "HOL-Library.Word" "HOL-Library.Code_Target_Numeral"
begin

section \<open>Values, strings and errors\<close>

text \<open>
  Graph objects are plain JavaScript objects. A value is modelled by the JSON it
  serialises to. An object is the list of its own enumerable properties in
  enumeration order (keys distinct); an array also carries the named (non-index)
  properties that JavaScript allows on it, which \<open>for ... in\<close> enumerates after the
  indices and \<open>JSON.stringify\<close> leaves out. The numbers of the model are the safe
  integers, of magnitude at most \<open>Number.MAX_SAFE_INTEGER\<close> (\<open>2 ^ 53 - 1\<close>), which a
  number of JavaScript holds exactly as a sign and a significand of 53 bits:
  \<open>JNumber negative magnitude\<close>. The length of a string is the number of its
  characters.
\<close>

datatype json =
    JNull
  | JBool bool
  | JNumber bool "53 word"
  | JString string
  | JArray "json list" "(string \<times> json) list"
  | JObject "(string \<times> json) list"

type_synonym obj = "(string \<times> json) list"

text \<open>
  The error a failed request is rejected with (an \<open>any\<close> in the source), by the three
  properties the upload code reads: \<open>err.code\<close>, \<open>err.response?.status\<close> and
  \<open>err.response?.data?.error?.code\<close>.
\<close>

record request_error =
  err_code :: "string option"
  response_status :: "nat option"
  response_error_code :: "string option"

text \<open>
  \<open>IntegrationError code fatal\<close> is the SDK's \<open>IntegrationError\<close> (its message and
  cause are left out); \<open>TypeError\<close> is the exception of the JavaScript runtime;
  \<open>RequestError\<close> is the error of a failed request; \<open>JsError message\<close> is a plain
  \<open>Error\<close>.
\<close>

datatype error =
    IntegrationError string bool
  | TypeError
  | RequestError request_error
  | JsError string

text \<open>\<open>String.prototype.toLowerCase\<close> and \<open>toUpperCase\<close> on ASCII text.\<close>

definition toLowerCase_char :: "char \<Rightarrow> char" where
  "toLowerCase_char c =
     (case map_of (zip ''ABCDEFGHIJKLMNOPQRSTUVWXYZ'' ''abcdefghijklmnopqrstuvwxyz'') c of
        Some l \<Rightarrow> l
      | None \<Rightarrow> c)"

definition toUpperCase_char :: "char \<Rightarrow> char" where
  "toUpperCase_char c =
     (case map_of (zip ''abcdefghijklmnopqrstuvwxyz'' ''ABCDEFGHIJKLMNOPQRSTUVWXYZ'') c of
        Some u \<Rightarrow> u
      | None \<Rightarrow> c)"

definition toLowerCase :: "string \<Rightarrow> string" where
  "toLowerCase s = map toLowerCase_char s"

definition toUpperCase :: "string \<Rightarrow> string" where
  "toUpperCase s = map toUpperCase_char s"

text \<open>\<open>s.split(sep)\<close> for a one-character separator: never the empty list.\<close>

fun split_on :: "char \<Rightarrow> string \<Rightarrow> string list" where
  "split_on sep [] = [[]]"
| "split_on sep (c # cs) =
     (if c = sep then [] # split_on sep cs
      else (case split_on sep cs of
              [] \<Rightarrow> [[c]]
            | p # ps \<Rightarrow> (c # p) # ps))"

text \<open>\<open>parts.join(sep)\<close>.\<close>

fun join :: "string \<Rightarrow> string list \<Rightarrow> string" where
  "join sep [] = []"
| "join sep [p] = p"
| "join sep (p # q # ps) = p @ sep @ join sep (q # ps)"

text \<open>\<open>xs[i]\<close>: \<open>None\<close> is \<open>undefined\<close>, the value of an index out of range.\<close>

definition at_index :: "'a list \<Rightarrow> nat \<Rightarrow> 'a option" where
  "at_index xs i = (if i < length xs then Some (xs ! i) else None)"

text \<open>
  Object property assignment \<open>o[k] = v\<close>: an existing property keeps its place, a new
  one is appended. Object spread \<open>{...base, ...props}\<close> assigns the properties of
  \<open>props\<close> in order.
\<close>

fun obj_assign :: "obj \<Rightarrow> string \<Rightarrow> json \<Rightarrow> obj" where
  "obj_assign [] k v = [(k, v)]"
| "obj_assign ((k', v') # kvs) k v =
     (if k' = k then (k, v) # kvs else (k', v') # obj_assign kvs k v)"

definition obj_spread :: "obj \<Rightarrow> obj \<Rightarrow> obj" where
  "obj_spread base props = fold (\<lambda>(k, v) acc. obj_assign acc k v) props base"

section \<open>Direct relationships\<close>

record Entity =
  e_key :: string
  e_type :: string
  e_class :: "string list"

text \<open>
  The \<open>from\<close> and \<open>to\<close> arguments of \<open>generateRelationshipType\<close> are either a string
  or an object with a \<open>_type\<close> property.
\<close>

datatype type_source = TypeString string | TypeObject string

fun is_falsy_source :: "type_source \<Rightarrow> bool" where
  "is_falsy_source (TypeString s) = (s = [])"
| "is_falsy_source (TypeObject t) = False"

fun source_value :: "type_source \<Rightarrow> string" where
  "source_value (TypeString s) = s"
| "source_value (TypeObject t) = t"

text \<open>
  The \<open>do ... while\<close> loop of \<open>generateRelationshipType\<close>, entered with the current
  \<open>i\<close>: it counts the leading parts that the two types share, stopping before the
  last part of the target type.
\<close>

function shared_parts :: "string list \<Rightarrow> string list \<Rightarrow> nat \<Rightarrow> nat" where
  "shared_parts fromValueParts toValueParts i =
     (if at_index toValueParts i = at_index fromValueParts i
      then (if Suc i < length toValueParts - 1
            then shared_parts fromValueParts toValueParts (Suc i)
            else Suc i)
      else i)"
  by pat_completeness auto
termination
  by (relation "measure (\<lambda>(f, t, i). length t - i)") auto

declare shared_parts.simps [simp del]

definition generateRelationshipType ::
  "string \<Rightarrow> type_source \<Rightarrow> type_source \<Rightarrow> error + string" where
  "generateRelationshipType cls from to =
     (if is_falsy_source from \<or> is_falsy_source to
      then Inl (IntegrationError
                  ''GENERATE_RELATIONSHIP_TYPE_MISSING_RELATIONSIHP_FROM_OR_TO'' False)
      else
        (let fromValue = source_value from;
             toValue = source_value to;
             fromValueParts = split_on (CHR ''_'') fromValue;
             toValueParts = split_on (CHR ''_'') toValue;
             i = shared_parts fromValueParts toValueParts 0
         in Inr (fromValue @ ''_'' @ toLowerCase cls @ ''_'' @
                 join ''_'' (drop i toValueParts))))"

definition createRelationship ::
  "string \<Rightarrow> string \<Rightarrow> string \<Rightarrow> string \<Rightarrow> string \<Rightarrow> obj option \<Rightarrow> error + obj" where
  "createRelationship cls fromType fromKey toType toKey properties =
     (let relationshipClass = toUpperCase cls in
      case generateRelationshipType cls (TypeString fromType) (TypeString toType) of
        Inl e \<Rightarrow> Inl e
      | Inr rtype \<Rightarrow>
          Inr (obj_spread
                 [(''_key'', JString (fromKey @ ''|'' @ toLowerCase cls @ ''|'' @ toKey)),
                  (''_type'', JString rtype),
                  (''_class'', JString relationshipClass),
                  (''_fromEntityKey'', JString fromKey),
                  (''_toEntityKey'', JString toKey),
                  (''displayName'', JString relationshipClass)]
                 (case properties of None \<Rightarrow> [] | Some ps \<Rightarrow> ps)))"

text \<open>
  The two shapes of the options of \<open>createDirectRelationship\<close>, told apart in the
  source by \<open>'fromType' in options\<close>: with the two entities, or with literal types
  and keys.
\<close>

datatype DirectRelationshipOptions =
    DirectRelationshipOptions string Entity Entity "obj option"
  | DirectRelationshipLiteralOptions string string string string string "obj option"

text \<open>
  \<open>RelationshipClass\<close> is the enumeration of the data model package, which is not part
  of the repository: the list of its member names is a parameter.
\<close>

definition isValidDataModelClass :: "string list \<Rightarrow> string \<Rightarrow> bool" where
  "isValidDataModelClass RelationshipClass cls = (cls \<in> set RelationshipClass)"

fun createDirectRelationship ::
  "string list \<Rightarrow> DirectRelationshipOptions \<Rightarrow> error + obj" where
  "createDirectRelationship RelationshipClass (DirectRelationshipOptions cls from to properties) =
     (if \<not> isValidDataModelClass RelationshipClass (toUpperCase cls)
      then Inl (IntegrationError ''INVALID_RELATIONSHIP_CLASS'' False)
      else createRelationship cls (e_type from) (e_key from) (e_type to) (e_key to) properties)"
| "createDirectRelationship RelationshipClass
     (DirectRelationshipLiteralOptions cls fromType fromKey toType toKey properties) =
     (if \<not> isValidDataModelClass RelationshipClass (toUpperCase cls)
      then Inl (IntegrationError ''INVALID_RELATIONSHIP_CLASS'' False)
      else createRelationship cls fromType fromKey toType toKey properties)"

text \<open>
  The additional properties of a relationship, when the option is absent: spreading
  \<open>undefined\<close> adds nothing.
\<close>

definition props_of :: "obj option \<Rightarrow> obj" where
  "props_of properties = (case properties of None \<Rightarrow> [] | Some ps \<Rightarrow> ps)"

section \<open>Serialisation\<close>

text \<open>
  \<open>JSON.stringify\<close>: strings are quoted, with the quote, the backslash and the control
  characters escaped; a safe integer is written in decimal; the named properties of an
  array are not written.
\<close>

definition hex_digit :: "nat \<Rightarrow> char" where
  "hex_digit n = ''0123456789abcdef'' ! (n mod 16)"

definition escape_char :: "char \<Rightarrow> string" where
  "escape_char c =
     (if c = CHR 0x22 then [CHR 0x5C, CHR 0x22]
      else if c = CHR 0x5C then [CHR 0x5C, CHR 0x5C]
      else if c = CHR 0x08 then [CHR 0x5C, CHR ''b'']
      else if c = CHR 0x0C then [CHR 0x5C, CHR ''f'']
      else if c = CHR 0x0A then [CHR 0x5C, CHR ''n'']
      else if c = CHR 0x0D then [CHR 0x5C, CHR ''r'']
      else if c = CHR 0x09 then [CHR 0x5C, CHR ''t'']
      else if (of_char c :: nat) < 32
        then [CHR 0x5C, CHR ''u'', CHR ''0'', CHR ''0'',
              hex_digit (of_char c div 16), hex_digit (of_char c)]
      else [c])"

definition quote :: "string \<Rightarrow> string" where
  "quote s = [CHR 0x22] @ concat (map escape_char s) @ [CHR 0x22]"

definition digit_char :: "nat \<Rightarrow> char" where
  "digit_char d = ''0123456789'' ! d"

function decimal :: "nat \<Rightarrow> string" where
  "decimal n =
     (if 10 \<le> n then decimal (n div 10) @ [digit_char (n mod 10)] else [digit_char n])"
  by pat_completeness auto
termination
  by (relation "measure id") auto

declare decimal.simps [simp del]

text \<open>
  \<open>Number::toString\<close> of a safe integer: its decimal digits, after a minus sign when
  it is negative; the negative zero is written \<open>0\<close>.
\<close>

definition number_text :: "bool \<Rightarrow> 53 word \<Rightarrow> string" where
  "number_text negative magnitude =
     (if negative \<and> magnitude \<noteq> 0 then CHR ''-'' # decimal (unat magnitude)
      else decimal (unat magnitude))"

fun stringify :: "json \<Rightarrow> string" where
  "stringify JNull = ''null''"
| "stringify (JBool b) = (if b then ''true'' else ''false'')"
| "stringify (JNumber negative magnitude) = number_text negative magnitude"
| "stringify (JString s) = quote s"
| "stringify (JArray xs named) = ''['' @ join '','' (map stringify xs) @ '']''"
| "stringify (JObject kvs) =
     ''{'' @ join '','' (map (\<lambda>(k, v). quote k @ '':'' @ stringify v) kvs) @ ''}''"

section \<open>Property access\<close>

text \<open>
  A property key is an array index or a name (JavaScript writes the index \<open>i\<close> as
  the decimal string of \<open>i\<close>, which is how an index names a field of an object; a
  name used on an array or a string is never the decimal string of an index).
  \<open>own_entries\<close> lists the properties that
  \<open>for (const k in v)\<close> visits, with their values: the fields of an object, the
  elements of an array followed by its named properties, the characters of a string,
  and nothing for the other primitives. \<open>for ... in\<close> over \<open>undefined\<close> (here
  \<open>None\<close>) or \<open>null\<close> visits nothing. Reading a property of \<open>undefined\<close> or
  \<open>null\<close> throws a \<open>TypeError\<close>; reading an absent property gives
  \<open>undefined\<close>. Assigning a property of \<open>undefined\<close>, \<open>null\<close> or a primitive throws
  a \<open>TypeError\<close> (the module is in strict mode); an index past the end of an array
  extends it.
\<close>

datatype property_key = Index nat | Name string

definition indexed :: "'a list \<Rightarrow> (property_key \<times> 'a) list" where
  "indexed xs = zip (map Index [0..<length xs]) xs"

definition named_entries :: "(string \<times> json) list \<Rightarrow> (property_key \<times> json) list" where
  "named_entries kvs = map (\<lambda>(k, v). (Name k, v)) kvs"

fun own_entries :: "json \<Rightarrow> (property_key \<times> json) list" where
  "own_entries (JObject kvs) = named_entries kvs"
| "own_entries (JArray xs named) = indexed xs @ named_entries named"
| "own_entries (JString s) = indexed (map (\<lambda>c. JString [c]) s)"
| "own_entries v = []"

fun for_in :: "json option \<Rightarrow> (property_key \<times> json) list" where
  "for_in None = []"
| "for_in (Some v) = own_entries v"

fun own_property :: "json \<Rightarrow> property_key \<Rightarrow> json option" where
  "own_property (JObject kvs) (Index i) = map_of kvs (decimal i)"
| "own_property v k = map_of (own_entries v) k"

fun get_prop :: "json option \<Rightarrow> property_key \<Rightarrow> error + json option" where
  "get_prop None k = Inl TypeError"
| "get_prop (Some JNull) k = Inl TypeError"
| "get_prop (Some v) k = Inr (own_property v k)"

fun set_prop :: "json option \<Rightarrow> property_key \<Rightarrow> json \<Rightarrow> error + json" where
  "set_prop (Some (JObject kvs)) (Name k) v = Inr (JObject (obj_assign kvs k v))"
| "set_prop (Some (JObject kvs)) (Index i) v = Inr (JObject (obj_assign kvs (decimal i) v))"
| "set_prop (Some (JArray xs named)) (Name k) v = Inr (JArray xs (obj_assign named k v))"
| "set_prop (Some (JArray xs named)) (Index i) v =
     Inr (JArray (if i < length xs then xs[i := v]
                  else xs @ replicate (i - length xs) JNull @ [v]) named)"
| "set_prop w k v = Inl TypeError"

text \<open>The truthiness of a value: \<open>null\<close>, \<open>false\<close>, \<open>0\<close> and \<open>''\<close> are falsy.\<close>

fun truthy :: "json \<Rightarrow> bool" where
  "truthy JNull = False"
| "truthy (JBool b) = b"
| "truthy (JNumber negative magnitude) = (magnitude \<noteq> 0)"
| "truthy (JString s) = (s \<noteq> [])"
| "truthy v = True"

section \<open>Shrinking the raw data of a batch\<close>

text \<open>
  Each of the three search loops of \<open>shrinkRawData\<close> starts from the key \<open>''\<close> and
  the size 0 and keeps a key whose size is strictly greater than the largest so far:
  \<open>largest_from\<close> is that loop over the keys with their sizes. For an entity and for an
  entry of \<open>_rawData\<close> the size is the length of \<open>JSON.stringify\<close> of the value; for a
  field of \<open>rawData\<close> it is that length when the value is truthy and 0 otherwise.
\<close>

fun largest_from ::
  "property_key \<Rightarrow> nat \<Rightarrow> (property_key \<times> nat) list \<Rightarrow> property_key \<times> nat" where
  "largest_from largestKey largestSize [] = (largestKey, largestSize)"
| "largest_from largestKey largestSize ((k, n) # rest) =
     (if n > largestSize then largest_from k n rest
      else largest_from largestKey largestSize rest)"

definition largest_serialized :: "(property_key \<times> json) list \<Rightarrow> property_key \<times> nat" where
  "largest_serialized entries =
     largest_from (Name []) 0 (map (\<lambda>(k, v). (k, length (stringify v))) entries)"

definition largest_item :: "(property_key \<times> json) list \<Rightarrow> property_key \<times> nat" where
  "largest_item entries =
     largest_from (Name []) 0
       (map (\<lambda>(k, v). (k, if truthy v then length (stringify v) else 0)) entries)"

text \<open>
  \<open>Buffer.byteLength\<close> of a string is the length of its UTF-8 encoding, in which a
  character below \<open>0x80\<close> takes one byte and every other character of the type two;
  \<open>.length\<close> counts the characters. Then \<open>Buffer.byteLength("'TRUNCATED'")\<close>, the
  quotes included, and the default of \<open>maxSize\<close>.
\<close>

definition byteLength :: "string \<Rightarrow> nat" where
  "byteLength s = length s + length (filter (\<lambda>c. 128 \<le> (of_char c :: nat)) s)"

definition sizeOfTruncated :: int where
  "sizeOfTruncated = int (byteLength ([CHR 0x27] @ ''TRUNCATED'' @ [CHR 0x27]))"

definition UPLOAD_SIZE_MAX :: int where
  "UPLOAD_SIZE_MAX = 6275072"

text \<open>
  The body of the \<open>while\<close> loop: it finds the largest entity of the batch, the largest
  entry of its \<open>_rawData\<close> and the largest field of the \<open>rawData\<close> of that entry,
  assigns \<open>'TRUNCATED'\<close> to that field and computes the new \<open>totalSize\<close>. It returns
  the batch after the assignment (the source mutates it in place; the values are trees,
  so nothing else changes) and the new \<open>totalSize\<close>, or the exception thrown.
\<close>

fun elements :: "json \<Rightarrow> json list" where
  "elements (JArray xs named) = xs"
| "elements v = []"

definition shrink_iteration :: "json list \<Rightarrow> int \<Rightarrow> error + json list \<times> int" where
  "shrink_iteration data totalSize =
     (let batch = Some (JArray data []);
          (largestEntityKey, largestEntitySize) = largest_serialized (for_in batch)
      in
      case get_prop batch largestEntityKey of Inl e \<Rightarrow> Inl e | Inr entity \<Rightarrow>
      case get_prop entity (Name ''_rawData'') of Inl e \<Rightarrow> Inl e | Inr rawDataEntries \<Rightarrow>
      let (largestRawDataEntryKey, largestRawDataEntrySize) =
            largest_serialized (for_in rawDataEntries)
      in
      case get_prop rawDataEntries largestRawDataEntryKey of Inl e \<Rightarrow> Inl e | Inr rawEntry \<Rightarrow>
      case get_prop rawEntry (Name ''rawData'') of Inl e \<Rightarrow> Inl e | Inr rawData \<Rightarrow>
      let (largestItemKey, largestItemSize) = largest_item (for_in rawData)
      in
      case set_prop rawData largestItemKey (JString ''TRUNCATED'') of Inl e \<Rightarrow> Inl e | Inr rawData' \<Rightarrow>
      case set_prop rawEntry (Name ''rawData'') rawData' of Inl e \<Rightarrow> Inl e | Inr rawEntry' \<Rightarrow>
      case set_prop rawDataEntries largestRawDataEntryKey rawEntry' of Inl e \<Rightarrow> Inl e | Inr rawDataEntries' \<Rightarrow>
      case set_prop entity (Name ''_rawData'') rawDataEntries' of Inl e \<Rightarrow> Inl e | Inr entity' \<Rightarrow>
      case set_prop batch largestEntityKey entity' of Inl e \<Rightarrow> Inl e
      | Inr batch' \<Rightarrow>
          Inr (elements batch', totalSize - int largestItemSize + sizeOfTruncated))"

text \<open>
  The \<open>while\<close> loop, which may not terminate: \<open>None\<close> is the call that never
  returns. \<open>shrinkRawData\<close> starts it with the byte length of the serialised batch;
  its result is the batch as left behind, with the \<open>totalSize\<close> and the
  \<open>itemsRemoved\<close> that it logs.
\<close>

partial_function (option) shrink_while ::
  "int \<Rightarrow> json list \<Rightarrow> int \<Rightarrow> nat \<Rightarrow> (error + json list \<times> int \<times> nat) option" where
  "shrink_while maxSize data totalSize itemsRemoved =
     (if totalSize > maxSize
      then (case shrink_iteration data totalSize of
              Inl e \<Rightarrow> Some (Inl e)
            | Inr (data', totalSize') \<Rightarrow> shrink_while maxSize data' totalSize' (itemsRemoved + 1))
      else Some (Inr (data, totalSize, itemsRemoved)))"

declare shrink_while.simps [code]

definition shrinkRawData ::
  "json list \<Rightarrow> int option \<Rightarrow> (error + json list \<times> int \<times> nat) option" where
  "shrinkRawData data maxSize =
     shrink_while (case maxSize of None \<Rightarrow> UPLOAD_SIZE_MAX | Some m \<Rightarrow> m)
       data (int (byteLength (stringify (JArray data [])))) 0"

section \<open>Uploading batches\<close>





























section \<open>Synchronization\<close>

text \<open>
  \<open>synchronizeCollectedData\<close> awaits, in this order: the initiation of the job, the
  upload of the collected data, the reading of the partial datasets from the summary and
  the finalization of the job; an error of one of the last three is logged and the job is
  aborted (an error of the abort is logged and thrown instead of the first); the
  \<open>finally\<close> block awaits \<open>eventPublishingQueue.onIdle()\<close>. The outcomes of the
  requests are the environment; the function is given by the actions it performs, in
  order, and its result. An error of the initiation is thrown before the queue exists.
\<close>

record sync_env =
  initiate_result :: "error + unit"
  upload_result :: "error + unit"
  partialDatasets_result :: "error + unit"
  finalize_result :: "error + unit"
  abort_result :: "error + unit"

datatype sync_action =
    Initiate
  | AttachQueue
  | Upload
  | GetPartialDatasets
  | Finalize
  | LogError error
  | Abort
  | QueueOnIdle

definition on_sync_error ::
  "sync_env \<Rightarrow> sync_action list \<Rightarrow> error \<Rightarrow> sync_action list \<times> (error + unit)" where
  "on_sync_error env tried err =
     (case abort_result env of
        Inl abortError \<Rightarrow> (tried @ [LogError err, Abort, LogError abortError], Inl abortError)
      | Inr u \<Rightarrow> (tried @ [LogError err, Abort], Inl err))"

definition synchronizeCollectedData :: "sync_env \<Rightarrow> sync_action list \<times> (error + unit)" where
  "synchronizeCollectedData env =
     (case initiate_result env of
        Inl e \<Rightarrow> ([Initiate], Inl e)
      | Inr u \<Rightarrow>
          (let (body, result) =
             (case upload_result env of
                Inl e \<Rightarrow> on_sync_error env [Upload] e
              | Inr u \<Rightarrow>
                 (case partialDatasets_result env of
                    Inl e \<Rightarrow> on_sync_error env [Upload, GetPartialDatasets] e
                  | Inr u \<Rightarrow>
                     (case finalize_result env of
                        Inl e \<Rightarrow> on_sync_error env [Upload, GetPartialDatasets, Finalize] e
                      | Inr u \<Rightarrow> ([Upload, GetPartialDatasets, Finalize], Inr ()))))
           in ([Initiate, AttachQueue] @ body @ [QueueOnIdle], result)))"

text \<open>
  Modelled from the spec: \<open>createEventPublishingQueue\<close> (module \<open>./events\<close>) is not
  among the sources. The events the logger emits are put on the queue once the queue is
  attached; the queue publishes them to the remote service one by one, on its own, while
  \<open>synchronizeCollectedData\<close> goes on; \<open>onIdle\<close> completes when the queue is empty.
  A step of a run is an action of \<open>synchronizeCollectedData\<close> (\<open>emits\<close> gives the
  events the logger emits during it), the completion of \<open>onIdle\<close>, or the publication
  of the first queued event.
\<close>

record run_state =
  todo :: "sync_action list"
  performed :: "sync_action list"
  queue :: "string list"
  published :: "string list"

inductive sync_step :: "(sync_action \<Rightarrow> string list) \<Rightarrow> run_state \<Rightarrow> run_state \<Rightarrow> bool"
  for emits :: "sync_action \<Rightarrow> string list" where
  act: "todo s = a # rest \<Longrightarrow> a \<noteq> QueueOnIdle \<Longrightarrow>
        sync_step emits s
          (s\<lparr>todo := rest, performed := performed s @ [a],
             queue := queue s @ (if AttachQueue \<in> set (performed s) then emits a else [])\<rparr>)"
| idle: "todo s = QueueOnIdle # rest \<Longrightarrow> queue s = [] \<Longrightarrow>
        sync_step emits s (s\<lparr>todo := rest, performed := performed s @ [QueueOnIdle]\<rparr>)"
| publish: "queue s = e # q \<Longrightarrow>
        sync_step emits s (s\<lparr>queue := q, published := published s @ [e]\<rparr>)"

definition sync_start :: "sync_env \<Rightarrow> run_state" where
  "sync_start env =
     \<lparr>todo = fst (synchronizeCollectedData env), performed = [], queue = [], published = []\<rparr>"

definition sync_run :: "(sync_action \<Rightarrow> string list) \<Rightarrow> sync_env \<Rightarrow> run_state \<Rightarrow> bool" where
  "sync_run emits env s = (sync_step emits)\<^sup>*\<^sup>* (sync_start env) s"

text \<open>The events put on the queue by a list of actions, performed after \<open>before\<close>.\<close>

fun enqueued :: "(sync_action \<Rightarrow> string list) \<Rightarrow> sync_action list \<Rightarrow> sync_action list \<Rightarrow> string list" where
  "enqueued emits before [] = []"
| "enqueued emits before (a # actions) =
     (if a \<noteq> QueueOnIdle \<and> AttachQueue \<in> set before then emits a else []) @
     enqueued emits (before @ [a]) actions"

text \<open>
  A run in which every request succeeds and the logger emits one event at the end of the
  upload, the state of that run after the finalization, and its last state.
\<close>

definition all_succeed :: sync_env where
  "all_succeed =
     \<lparr>initiate_result = Inr (), upload_result = Inr (), partialDatasets_result = Inr (),
      finalize_result = Inr (), abort_result = Inr ()\<rparr>"

definition upload_end_event :: "sync_action \<Rightarrow> string list" where
  "upload_end_event a = (if a = Upload then [''sync_upload_end''] else [])"

definition finalized_with_event_queued :: run_state where
  "finalized_with_event_queued =
     \<lparr>todo = [QueueOnIdle],
      performed = [Initiate, AttachQueue, Upload, GetPartialDatasets, Finalize],
      queue = [''sync_upload_end''], published = []\<rparr>"

definition drained_after_finalize :: run_state where
  "drained_after_finalize =
     \<lparr>todo = [],
      performed = [Initiate, AttachQueue, Upload, GetPartialDatasets, Finalize, QueueOnIdle],
      queue = [], published = [''sync_upload_end'']\<rparr>"

section \<open>Steps, job state and execution summary\<close>

text \<open>
  The sources hold the tests of \<open>executeIntegrationInstance\<close> (with the steps, the
  expected step results and the expected partial datasets) but not the function, the
  job state, the object store, the dependency graph or the aggregation of the partial
  datasets. The types below are those of the tests: a step with its declared entity and
  relationship types (each with its \<open>partial\<close> flag), a step result, the invocation
  configuration and the result of a run. The handler of a step is given by the
  operations it performs on the job state, in order: adding an entity, adding several,
  or rejecting with an error; an operation that fails ends the handler.
  \<open>validateInvocation\<close> is given by the error it rejects with, if any, and
  \<open>getStepStartStates\<close> by the map from step ids to \<open>disabled\<close> that it returns.
\<close>

datatype StepResultStatus =
    SUCCESS
  | FAILURE
  | PARTIAL_SUCCESS_DUE_TO_DEPENDENCY_FAILURE
  | DISABLED
  | CANCELLED

record DeclaredType =
  d_type :: string
  d_partial :: bool

datatype job_op =
    AddEntity Entity
  | AddEntities "Entity list"
  | Reject string

record IntegrationStep =
  step_id :: string
  step_name :: string
  step_entities :: "DeclaredType list"
  step_relationships :: "DeclaredType list"
  step_dependsOn :: "string list option"
  executionHandler :: "job_op list"

record IntegrationStepResult =
  r_id :: string
  r_name :: string
  declaredTypes :: "string list"
  partialTypes :: "string list"
  encounteredTypes :: "string list"
  r_dependsOn :: "string list option"
  status :: StepResultStatus

record IntegrationInvocationConfig =
  validateInvocation :: "error option"
  getStepStartStates :: "(string \<Rightarrow> bool option) option"
  integrationSteps :: "IntegrationStep list"

record ExecuteIntegrationResult =
  integrationStepResults :: "IntegrationStepResult list"
  partialDatasets_types :: "string list"

text \<open>
  Modelled from the spec: the list operations of the aggregation (the sources do not
  hold them). A union keeps the first occurrence of each type, in order.
\<close>

definition add_uniq :: "'a list \<Rightarrow> 'a \<Rightarrow> 'a list" where
  "add_uniq xs x = (if x \<in> set xs then xs else xs @ [x])"

definition uniq_concat :: "'a list \<Rightarrow> 'a list \<Rightarrow> 'a list" where
  "uniq_concat xs ys = fold (\<lambda>y acc. add_uniq acc y) ys xs"

text \<open>
  Modelled from the spec: the step result's \<open>declaredTypes\<close> (the \<open>_type\<close> of the
  declared entities and relationships) and \<open>partialTypes\<close> (those whose \<open>partial\<close>
  flag is true); the function that computes them is not among the sources.
\<close>

definition step_declaredTypes :: "IntegrationStep \<Rightarrow> string list" where
  "step_declaredTypes s =
     uniq_concat [] (map d_type (step_entities s @ step_relationships s))"

definition step_partialTypes :: "IntegrationStep \<Rightarrow> string list" where
  "step_partialTypes s =
     uniq_concat [] (map d_type (filter d_partial (step_entities s @ step_relationships s)))"

text \<open>
  Modelled from the spec: the job state and the object store are not among the sources.
  The store holds the entities added so far, by all steps; \<open>addEntity\<close> fails with
  \<open>DUPLICATE_KEY\<close> when an entity with the same \<open>_key\<close> is in the store, and
  otherwise stores the entity and records its \<open>_type\<close> among the types the step
  encountered; \<open>addEntities\<close> adds the entities one by one, and the first duplicate
  ends it with the entities before it retained. Hooks, schema validation, flushing and
  relationships (which the spec treats like entities) are left out.
\<close>

record job_state =
  js_store :: "Entity list"
  js_encounteredTypes :: "string list"

definition addEntity :: "job_state \<Rightarrow> Entity \<Rightarrow> error + job_state" where
  "addEntity js e =
     (if e_key e \<in> set (map e_key (js_store js))
      then Inl (IntegrationError ''DUPLICATE_KEY'' False)
      else Inr \<lparr>js_store = js_store js @ [e],
                js_encounteredTypes = add_uniq (js_encounteredTypes js) (e_type e)\<rparr>)"

fun addEntities :: "job_state \<Rightarrow> Entity list \<Rightarrow> job_state \<times> error option" where
  "addEntities js [] = (js, None)"
| "addEntities js (e # es) =
     (case addEntity js e of
        Inl err \<Rightarrow> (js, Some err)
      | Inr js' \<Rightarrow> addEntities js' es)"

text \<open>
  Modelled from the spec: the execution of a step handler (not among the sources) on
  the job state: a failing operation or a rejection ends it with that error.
\<close>

fun run_handler :: "job_state \<Rightarrow> job_op list \<Rightarrow> job_state \<times> error option" where
  "run_handler js [] = (js, None)"
| "run_handler js (AddEntity e # ops) =
     (case addEntity js e of
        Inl err \<Rightarrow> (js, Some err)
      | Inr js' \<Rightarrow> run_handler js' ops)"
| "run_handler js (AddEntities es # ops) =
     (case addEntities js es of
        (js', Some err) \<Rightarrow> (js', Some err)
      | (js', None) \<Rightarrow> run_handler js' ops)"
| "run_handler js (Reject message # ops) = (js, Some (JsError message))"

text \<open>
  Modelled from the spec: the step scheduler is not among the sources. A disabled step
  ends at once with status \<open>DISABLED\<close> and no encountered types; otherwise the
  handler runs on the shared store, and the status is \<open>FAILURE\<close> when it failed,
  \<open>PARTIAL_SUCCESS_DUE_TO_DEPENDENCY_FAILURE\<close> when a step it depends on ended in
  \<open>FAILURE\<close> or in that status, and \<open>SUCCESS\<close> otherwise. The state of a run is
  the store, the ids of the steps whose handler was invoked, and the step results.
\<close>

definition result_status :: "IntegrationStepResult list \<Rightarrow> string \<Rightarrow> StepResultStatus option" where
  "result_status results sid = map_option status (find (\<lambda>r. r_id r = sid) results)"

definition dependency_failed :: "IntegrationStepResult list \<Rightarrow> IntegrationStep \<Rightarrow> bool" where
  "dependency_failed results s =
     (\<exists>d \<in> set (case step_dependsOn s of None \<Rightarrow> [] | Some ds \<Rightarrow> ds).
        result_status results d = Some FAILURE
        \<or> result_status results d = Some PARTIAL_SUCCESS_DUE_TO_DEPENDENCY_FAILURE)"

definition run_step ::
  "(string \<Rightarrow> bool) \<Rightarrow> Entity list \<times> string list \<times> IntegrationStepResult list \<Rightarrow> IntegrationStep \<Rightarrow>
     Entity list \<times> string list \<times> IntegrationStepResult list" where
  "run_step disabled st s =
     (case st of (stored, invoked, results) \<Rightarrow>
        let base = \<lparr>r_id = step_id s, r_name = step_name s,
                    declaredTypes = step_declaredTypes s, partialTypes = step_partialTypes s,
                    encounteredTypes = [], r_dependsOn = step_dependsOn s, status = DISABLED\<rparr>
        in
        if disabled (step_id s) then (stored, invoked, results @ [base])
        else
          (case run_handler \<lparr>js_store = stored, js_encounteredTypes = []\<rparr> (executionHandler s) of
             (js, failure) \<Rightarrow>
               (js_store js, invoked @ [step_id s],
                results @
                  [base\<lparr>encounteredTypes := js_encounteredTypes js,
                        status :=
                          (if failure \<noteq> None then FAILURE
                           else if dependency_failed results s
                             then PARTIAL_SUCCESS_DUE_TO_DEPENDENCY_FAILURE
                           else SUCCESS)\<rparr>])))"

text \<open>
  Modelled from the spec: \<open>determinePartialDatasetsFromStepExecutionResults\<close> is not
  among the sources. The spec has the union, over the step results, of the
  \<open>declaredTypes\<close> of the steps in status \<open>FAILURE\<close> or
  \<open>PARTIAL_SUCCESS_DUE_TO_DEPENDENCY_FAILURE\<close> and of the \<open>partialTypes\<close> of every
  step. The tests of the repository fix two points the definition follows: the
  \<open>partialTypes\<close> of a step come before its \<open>declaredTypes\<close> (test \<open>includes
  partialTypes declared in failing step meta data\<close>), and the \<open>partialTypes\<close> of a
  \<open>DISABLED\<close> step are left out (test \<open>does not include partialTypes for disabled
  steps\<close>). \<open>spec_partial_datasets\<close> is the union in the words of the spec, with
  the \<open>partialTypes\<close> of every step whatever its status, for comparison.
\<close>

definition step_partial_datasets :: "IntegrationStepResult \<Rightarrow> string list" where
  "step_partial_datasets r =
     (if status r \<noteq> DISABLED then partialTypes r else []) @
     (if status r = FAILURE \<or> status r = PARTIAL_SUCCESS_DUE_TO_DEPENDENCY_FAILURE
      then declaredTypes r else [])"

definition spec_partial_datasets :: "IntegrationStepResult list \<Rightarrow> string list" where
  "spec_partial_datasets results =
     fold (\<lambda>r types. uniq_concat types
             (partialTypes r @
              (if status r = FAILURE \<or> status r = PARTIAL_SUCCESS_DUE_TO_DEPENDENCY_FAILURE
               then declaredTypes r else [])))
       results []"

definition determinePartialDatasetsFromStepExecutionResults ::
  "IntegrationStepResult list \<Rightarrow> string list" where
  "determinePartialDatasetsFromStepExecutionResults results =
     fold (\<lambda>r types. uniq_concat types (step_partial_datasets r)) results []"

text \<open>
  Modelled from the spec: the dependency graph is not among the sources. The steps run
  one at a time; the next step is the first, in the order of the configuration, whose
  dependencies have all ended; when steps remain and none is ready, the dependencies
  are cyclic (or unknown).
\<close>

definition is_ready :: "string list \<Rightarrow> IntegrationStep \<Rightarrow> bool" where
  "is_ready terminated s =
     (set (case step_dependsOn s of None \<Rightarrow> [] | Some ds \<Rightarrow> ds) \<subseteq> set terminated)"

fun schedule :: "nat \<Rightarrow> IntegrationStep list \<Rightarrow> string list \<Rightarrow> IntegrationStep list option" where
  "schedule n [] terminated = Some []"
| "schedule 0 (s # pending) terminated = None"
| "schedule (Suc n) (s # pending) terminated =
     (case find (is_ready terminated) (s # pending) of
        None \<Rightarrow> None
      | Some next \<Rightarrow>
          map_option ((#) next)
            (schedule n (remove1 next (s # pending)) (terminated @ [step_id next])))"

text \<open>
  Modelled from the spec: the validation of the start states and the run itself are not
  among the sources. \<open>validateInvocation\<close> comes first; then the start states are
  evaluated and must have an entry for every step; then the dependency graph is built;
  then the steps run. The result lists the step results in the order of the
  configuration, with the partial datasets computed from them; the first component
  lists the steps whose handler was invoked.
\<close>

definition start_states_missing :: "IntegrationInvocationConfig \<Rightarrow> bool" where
  "start_states_missing config =
     (case getStepStartStates config of
        None \<Rightarrow> False
      | Some states \<Rightarrow> \<exists>s \<in> set (integrationSteps config). states (step_id s) = None)"

definition is_disabled :: "IntegrationInvocationConfig \<Rightarrow> string \<Rightarrow> bool" where
  "is_disabled config sid =
     (case getStepStartStates config of
        None \<Rightarrow> False
      | Some states \<Rightarrow> states sid = Some True)"

definition executeSteps ::
  "IntegrationInvocationConfig \<Rightarrow> IntegrationStep list \<Rightarrow>
     Entity list \<times> string list \<times> IntegrationStepResult list" where
  "executeSteps config ordered = fold (\<lambda>s st. run_step (is_disabled config) st s) ordered ([], [], [])"

definition executeIntegrationInstance ::
  "IntegrationInvocationConfig \<Rightarrow> string list \<times> (error + ExecuteIntegrationResult)" where
  "executeIntegrationInstance config =
     (case validateInvocation config of
        Some err \<Rightarrow> ([], Inl err)
      | None \<Rightarrow>
          if start_states_missing config
          then ([], Inl (IntegrationError ''START_STATES_MISSING'' True))
          else
            (case schedule (length (integrationSteps config)) (integrationSteps config) [] of
               None \<Rightarrow> ([], Inl (IntegrationError ''CYCLIC_DEPENDENCY'' True))
             | Some ordered \<Rightarrow>
                 (case executeSteps config ordered of
                    (stored, invoked, results) \<Rightarrow>
                      let reported =
                            concat (map (\<lambda>s. filter (\<lambda>r. r_id r = step_id s) results)
                                      (integrationSteps config))
                      in (invoked,
                          Inr \<lparr>integrationStepResults = reported,
                               partialDatasets_types =
                                 determinePartialDatasetsFromStepExecutionResults reported\<rparr>))))"

text \<open>
  Configurations and expected results of the tests of the repository: a disabled step
  with a partial type beside a failing step (lines 624 to 696), a duplicate key within
  a step (lines 1009 to 1055) and across steps (lines 1057 to 1115), a failing
  dependency (lines 470 to 545), start states without an entry (lines 127 to 159); and
  a step that writes a type it did not declare before a duplicate key.
\<close>

definition test_entity :: "string \<Rightarrow> DeclaredType" where
  "test_entity t = \<lparr>d_type = t, d_partial = False\<rparr>"

definition partial_entity :: "string \<Rightarrow> DeclaredType" where
  "partial_entity t = \<lparr>d_type = t, d_partial = True\<rparr>"

definition disabled_step_config :: IntegrationInvocationConfig where
  "disabled_step_config =
     \<lparr>validateInvocation = None,
      getStepStartStates = Some (map_of [(''my-step-b'', True), (''my-step-a'', False)]),
      integrationSteps =
        [\<lparr>step_id = ''my-step-a'', step_name = ''My awesome step'',
          step_entities = [test_entity ''test_a''], step_relationships = [],
          step_dependsOn = None, executionHandler = [Reject ''something broke'']\<rparr>,
         \<lparr>step_id = ''my-step-b'', step_name = ''My awesome step'',
          step_entities = [partial_entity ''test_b''], step_relationships = [],
          step_dependsOn = None, executionHandler = []\<rparr>]\<rparr>"

definition dup_entity :: "string \<Rightarrow> string \<Rightarrow> Entity" where
  "dup_entity k t = \<lparr>e_key = k, e_type = t, e_class = [''DuplicateEntity'']\<rparr>"

definition duplicate_within_step_config :: IntegrationInvocationConfig where
  "duplicate_within_step_config =
     \<lparr>validateInvocation = None, getStepStartStates = None,
      integrationSteps =
        [\<lparr>step_id = ''a'', step_name = ''a'',
          step_entities = [test_entity ''duplicate_entity''], step_relationships = [],
          step_dependsOn = None,
          executionHandler = [AddEntities [dup_entity ''key_a'' ''duplicate_entity'',
                                           dup_entity ''key_a'' ''duplicate_entity'']]\<rparr>]\<rparr>"

definition duplicate_across_steps_config :: IntegrationInvocationConfig where
  "duplicate_across_steps_config =
     \<lparr>validateInvocation = None, getStepStartStates = None,
      integrationSteps =
        [\<lparr>step_id = ''a'', step_name = ''a'',
          step_entities = [test_entity ''duplicate_entity''], step_relationships = [],
          step_dependsOn = None,
          executionHandler = [AddEntity (dup_entity ''key_a'' ''duplicate_entity'')]\<rparr>,
         \<lparr>step_id = ''b'', step_name = ''b'',
          step_entities = [test_entity ''duplicate_entity''], step_relationships = [],
          step_dependsOn = None,
          executionHandler = [AddEntity (dup_entity ''key_a'' ''duplicate_entity'')]\<rparr>]\<rparr>"

definition dependency_failure_config :: IntegrationInvocationConfig where
  "dependency_failure_config =
     \<lparr>validateInvocation = None, getStepStartStates = None,
      integrationSteps =
        [\<lparr>step_id = ''my-step-a'', step_name = ''My awesome step'',
          step_entities = [test_entity ''test_a''], step_relationships = [],
          step_dependsOn = None, executionHandler = [Reject ''something broke'']\<rparr>,
         \<lparr>step_id = ''my-step-b'', step_name = ''My awesome step'',
          step_entities = [test_entity ''test_b'', partial_entity ''test_b2''],
          step_relationships = [],
          step_dependsOn = Some [''my-step-a''], executionHandler = []\<rparr>]\<rparr>"

definition missing_start_states_config :: IntegrationInvocationConfig where
  "missing_start_states_config =
     \<lparr>validateInvocation = None,
      getStepStartStates = Some (map_of []),
      integrationSteps =
        [\<lparr>step_id = ''my-step'', step_name = ''My awesome step'',
          step_entities = [test_entity ''test''], step_relationships = [],
          step_dependsOn = None, executionHandler = []\<rparr>]\<rparr>"

definition disabled_step_expected :: ExecuteIntegrationResult where
  "disabled_step_expected =
     \<lparr>integrationStepResults =
        [\<lparr>r_id = ''my-step-a'', r_name = ''My awesome step'',
          declaredTypes = [''test_a''], partialTypes = [],
          encounteredTypes = [], r_dependsOn = None, status = FAILURE\<rparr>,
         \<lparr>r_id = ''my-step-b'', r_name = ''My awesome step'',
          declaredTypes = [''test_b''], partialTypes = [''test_b''],
          encounteredTypes = [], r_dependsOn = None, status = DISABLED\<rparr>],
      partialDatasets_types = [''test_a'']\<rparr>"

definition undeclared_type_config :: IntegrationInvocationConfig where
  "undeclared_type_config =
     \<lparr>validateInvocation = None, getStepStartStates = None,
      integrationSteps =
        [\<lparr>step_id = ''a'', step_name = ''a'',
          step_entities = [test_entity ''declared_entity''], step_relationships = [],
          step_dependsOn = None,
          executionHandler = [AddEntities [dup_entity ''key_a'' ''undeclared_entity'',
                                           dup_entity ''key_a'' ''undeclared_entity'']]\<rparr>]\<rparr>"

definition key_a_entity :: Entity where
  "key_a_entity = dup_entity ''key_a'' ''duplicate_entity''"

definition duplicate_step_b :: IntegrationStep where
  "duplicate_step_b =
     \<lparr>step_id = ''b'', step_name = ''b'',
      step_entities = [test_entity ''duplicate_entity''], step_relationships = [],
      step_dependsOn = None, executionHandler = [AddEntity key_a_entity]\<rparr>"

text \<open>
  Two batches used below. In the first the bulk of the entity is a property outside
  \<open>_rawData\<close>; the second is the first after its only raw data field was truncated.
  In the third the raw data holds a falsy field whose serialisation is longer than that
  of the truthy one.
\<close>

definition stuck_batch :: "json list" where
  "stuck_batch =
     [JObject [(''_key'', JString ''a''),
               (''description'', JString ''0123456789012345678901234567890123456789''),
               (''_rawData'', JArray [JObject [(''name'', JString ''default''),
                  (''rawData'', JObject [(''payload'', JString ''01234567890123456789'')])]] [])]]"

definition stuck_batch_truncated :: "json list" where
  "stuck_batch_truncated =
     [JObject [(''_key'', JString ''a''),
               (''description'', JString ''0123456789012345678901234567890123456789''),
               (''_rawData'', JArray [JObject [(''name'', JString ''default''),
                  (''rawData'', JObject [(''payload'', JString ''TRUNCATED'')])]] [])]]"

definition falsy_batch :: "json list" where
  "falsy_batch =
     [JObject [(''_key'', JString ''a''),
               (''_rawData'', JArray [JObject [(''name'', JString ''default''),
                  (''rawData'', JObject [(''enabled'', JBool False),
                                         (''count'', JNumber False 5)])]] [])]]"

definition falsy_batch_truncated :: "json list" where
  "falsy_batch_truncated =
     [JObject [(''_key'', JString ''a''),
               (''_rawData'', JArray [JObject [(''name'', JString ''default''),
                  (''rawData'', JObject [(''enabled'', JBool False),
                                         (''count'', JString ''TRUNCATED'')])]] [])]]"

definition falsy_batch_largest_truncated :: "json list" where
  "falsy_batch_largest_truncated =
     [JObject [(''_key'', JString ''a''),
               (''_rawData'', JArray [JObject [(''name'', JString ''default''),
                  (''rawData'', JObject [(''enabled'', JString ''TRUNCATED''),
                                         (''count'', JNumber False 5)])]] [])]]"

definition small_entity :: obj where
  "small_entity =
     [(''_key'', JString ''a''),
      (''_rawData'', JArray [JObject [(''name'', JString ''default''),
         (''rawData'', JObject [(''id'', JNumber False 1)])]] [])]"

definition small_entry :: obj where
  "small_entry =
     [(''name'', JString ''list''), (''rawData'', JObject [(''id'', JNumber False 2)])]"

definition large_fields :: obj where
  "large_fields =
     [(''enabled'', JBool False),
      (''payload'', JString ''01234567890123456789''),
      (''copy'', JString ''01234567890123456789'')]"

definition large_entry :: obj where
  "large_entry = [(''name'', JString ''default''), (''rawData'', JObject large_fields)]"

definition large_entity :: obj where
  "large_entity =
     [(''_key'', JString ''b''),
      (''_rawData'', JArray [JObject small_entry, JObject large_entry] [])]"

definition mixed_batch :: "json list" where
  "mixed_batch = [JObject small_entity, JObject large_entity]"

definition mixed_batch_truncated :: "json list" where
  "mixed_batch_truncated =
     [JObject small_entity,
      JObject [(''_key'', JString ''b''),
               (''_rawData'', JArray [JObject small_entry,
                  JObject [(''name'', JString ''default''),
                     (''rawData'', JObject [(''enabled'', JBool False),
                                            (''payload'', JString ''TRUNCATED''),
                                            (''copy'', JString ''01234567890123456789'')])]] [])]]"

section \<open>Relationship types of entities of one type\<close>

lemma split_on_no_sep: "sep \<notin> set s \<Longrightarrow> split_on sep s = [s]"
  by (induction s) auto

lemma shared_parts_single: "shared_parts [p] [p] 0 = 1"
  by (subst shared_parts.simps) (simp add: at_index_def)

lemma generateRelationshipType_same:
  assumes "t \<noteq> []" and "CHR ''_'' \<notin> set t"
  shows "generateRelationshipType cls (TypeString t) (TypeString t) =
           Inr (t @ ''_'' @ toLowerCase cls @ ''_'')"
proof -
  have parts: "split_on (CHR ''_'') t = [t]"
    using assms(2) by (rule split_on_no_sep)
  have "join ''_'' (drop (shared_parts [t] [t] 0) [t]) = []"
    by (simp only: shared_parts_single) simp
  with assms(1) parts show ?thesis
    by (simp add: generateRelationshipType_def Let_def)
qed

lemma map_of_obj_assign: "map_of (obj_assign kvs k v) = (map_of kvs)(k \<mapsto> v)"
  by (induction kvs) (auto simp: fun_eq_iff)

lemma map_of_obj_spread_other:
  "k \<notin> fst ` set props \<Longrightarrow> map_of (obj_spread base props) k = map_of base k"
  unfolding obj_spread_def
proof (induction props arbitrary: base)
  case Nil
  then show ?case by simp
next
  case (Cons p props)
  obtain k' v' where p: "p = (k', v')" by (cases p)
  from Cons.prems p have "k' \<noteq> k" and "k \<notin> fst ` set props" by auto
  with Cons.IH [of "obj_assign base k' v'"] p show ?case
    by (simp add: map_of_obj_assign)
qed

text \<open>
  C10 (as amended). For a valid relationship class and two entities whose \<open>_type\<close>
  is the same non-empty string without an underscore, \<open>createDirectRelationship\<close>
  returns a relationship whose \<open>_type\<close> is the source type, an underscore, the
  lower-cased class and a trailing underscore (the target segment is empty), and whose
  \<open>_key\<close> is \<open>from._key|class|to._key\<close> with the class in lower case, provided the
  additional properties do not set \<open>_type\<close> or \<open>_key\<close> themselves.
\<close>

theorem createDirectRelationship_same_type:
  assumes "isValidDataModelClass RelationshipClass (toUpperCase cls)"
    and "e_type from = t" and "e_type to = t"
    and "t \<noteq> []" and "CHR ''_'' \<notin> set t"
    and "''_type'' \<notin> fst ` set (props_of properties)"
    and "''_key'' \<notin> fst ` set (props_of properties)"
  shows "\<exists>rel. createDirectRelationship RelationshipClass
                 (DirectRelationshipOptions cls from to properties) = Inr rel
           \<and> map_of rel ''_type'' = Some (JString (t @ ''_'' @ toLowerCase cls @ ''_''))
           \<and> map_of rel ''_key'' =
               Some (JString (e_key from @ ''|'' @ toLowerCase cls @ ''|'' @ e_key to))"
proof -
  let ?base = "[(''_key'', JString (e_key from @ ''|'' @ toLowerCase cls @ ''|'' @ e_key to)),
                (''_type'', JString (t @ ''_'' @ toLowerCase cls @ ''_'')),
                (''_class'', JString (toUpperCase cls)),
                (''_fromEntityKey'', JString (e_key from)),
                (''_toEntityKey'', JString (e_key to)),
                (''displayName'', JString (toUpperCase cls))]"
  let ?rel = "obj_spread ?base (props_of properties)"
  have "createDirectRelationship RelationshipClass
          (DirectRelationshipOptions cls from to properties) = Inr ?rel"
    using assms(1-3) generateRelationshipType_same [OF assms(4,5)]
    by (simp add: createRelationship_def props_of_def Let_def)
  moreover have "map_of ?rel ''_type'' = Some (JString (t @ ''_'' @ toLowerCase cls @ ''_''))"
    using assms(6) by (simp add: map_of_obj_spread_other)
  moreover have "map_of ?rel ''_key'' =
      Some (JString (e_key from @ ''|'' @ toLowerCase cls @ ''|'' @ e_key to))"
    using assms(7) by (simp add: map_of_obj_spread_other)
  ultimately show ?thesis by blast
qed

text \<open>
  The relationship of the compression test of the repository: two entities of type
  \<open>test\<close> with keys \<open>test\<close> and \<open>test1\<close>, related with class \<open>HAS\<close>.
\<close>

theorem createDirectRelationship_same_type_witness:
  "\<exists>rel. createDirectRelationship [''HAS'']
            (DirectRelationshipOptions ''HAS''
               \<lparr>e_key = ''test'', e_type = ''test'', e_class = [''Test'']\<rparr>
               \<lparr>e_key = ''test1'', e_type = ''test'', e_class = [''Test'']\<rparr> None) = Inr rel
         \<and> map_of rel ''_type'' = Some (JString ''test_has_'')
         \<and> map_of rel ''_key'' = Some (JString ''test|has|test1'')"
  using createDirectRelationship_same_type
    [of "[''HAS'']" "''HAS''"
        "\<lparr>e_key = ''test'', e_type = ''test'', e_class = [''Test'']\<rparr>" "''test''"
        "\<lparr>e_key = ''test1'', e_type = ''test'', e_class = [''Test'']\<rparr>" None]
  by (simp add: isValidDataModelClass_def toUpperCase_def toUpperCase_char_def
      toLowerCase_def toLowerCase_char_def props_of_def)

text \<open>
  The claim as stated also covers the empty \<open>_type\<close>, which has no underscore: there
  the guard \<open>!from || !to\<close> of \<open>generateRelationshipType\<close> throws instead. And the
  additional properties are spread last: a \<open>_type\<close> among them replaces the generated
  one.
\<close>

theorem createDirectRelationship_empty_type_counterexample:
  "createDirectRelationship [''HAS'']
     (DirectRelationshipOptions ''HAS''
        \<lparr>e_key = ''a'', e_type = [], e_class = [''Test'']\<rparr>
        \<lparr>e_key = ''b'', e_type = [], e_class = [''Test'']\<rparr> None)
   = Inl (IntegrationError ''GENERATE_RELATIONSHIP_TYPE_MISSING_RELATIONSIHP_FROM_OR_TO'' False)
   \<and> createDirectRelationship [''HAS'']
       (DirectRelationshipOptions ''HAS''
          \<lparr>e_key = ''test'', e_type = ''test'', e_class = [''Test'']\<rparr>
          \<lparr>e_key = ''test1'', e_type = ''test'', e_class = [''Test'']\<rparr>
          (Some [(''_type'', JString ''custom'')]))
     = Inr [(''_key'', JString ''test|has|test1''), (''_type'', JString ''custom''),
            (''_class'', JString ''HAS''), (''_fromEntityKey'', JString ''test''),
            (''_toEntityKey'', JString ''test1''), (''displayName'', JString ''HAS'')]"
proof -
  have lower: "toLowerCase ''HAS'' = ''has''" and upper: "toUpperCase ''HAS'' = ''HAS''"
    by (simp_all add: toLowerCase_def toLowerCase_char_def toUpperCase_def toUpperCase_char_def)
  have gen: "generateRelationshipType ''HAS'' (TypeString ''test'') (TypeString ''test'') =
      Inr ''test_has_''"
    using generateRelationshipType_same [of "''test''" "''HAS''"] by (simp add: lower)
  have "createDirectRelationship [''HAS'']
     (DirectRelationshipOptions ''HAS''
        \<lparr>e_key = ''a'', e_type = [], e_class = [''Test'']\<rparr>
        \<lparr>e_key = ''b'', e_type = [], e_class = [''Test'']\<rparr> None)
   = Inl (IntegrationError ''GENERATE_RELATIONSHIP_TYPE_MISSING_RELATIONSIHP_FROM_OR_TO'' False)"
    by (simp add: isValidDataModelClass_def upper createRelationship_def
        generateRelationshipType_def)
  moreover have "createDirectRelationship [''HAS'']
       (DirectRelationshipOptions ''HAS''
          \<lparr>e_key = ''test'', e_type = ''test'', e_class = [''Test'']\<rparr>
          \<lparr>e_key = ''test1'', e_type = ''test'', e_class = [''Test'']\<rparr>
          (Some [(''_type'', JString ''custom'')]))
     = Inr [(''_key'', JString ''test|has|test1''), (''_type'', JString ''custom''),
            (''_class'', JString ''HAS''), (''_fromEntityKey'', JString ''test''),
            (''_toEntityKey'', JString ''test1''), (''displayName'', JString ''HAS'')]"
    by (simp add: isValidDataModelClass_def upper lower createRelationship_def gen
        obj_spread_def Let_def)
  ultimately show ?thesis by (rule conjI)
qed

section \<open>Shrinking raw data\<close>

lemmas shrink_eval = shrink_iteration_def largest_serialized_def largest_item_def
  indexed_def named_entries_def quote_def escape_char_def number_text_def
  decimal.simps digit_char_def sizeOfTruncated_def byteLength_def

lemma largest_from_keep:
  "\<forall>p \<in> set xs. snd p \<le> n \<Longrightarrow> largest_from k n xs = (k, n)"
  by (induction xs) auto

lemma largest_from_pick:
  assumes "\<forall>p \<in> set pre. snd p < n" and "\<forall>p \<in> set post. snd p \<le> n" and "s0 < n"
  shows "largest_from k0 s0 (pre @ (k, n) # post) = (k, n)"
  using assms
proof (induction pre arbitrary: k0 s0)
  case Nil
  then show ?case by (simp add: largest_from_keep)
next
  case (Cons p pre)
  obtain k1 n1 where p: "p = (k1, n1)" by (cases p)
  with Cons.prems have "n1 < n" by simp
  with Cons p show ?case by simp
qed

lemma largest_from_nth:
  assumes i: "i < length ys"
    and le: "\<forall>j < length ys. size_of (ys ! j) \<le> size_of (ys ! i)"
    and less: "\<forall>j < i. size_of (ys ! j) < size_of (ys ! i)"
    and pos: "0 < size_of (ys ! i)"
  shows "largest_from k0 0 (map (\<lambda>y. (key_of y, size_of y)) ys) =
           (key_of (ys ! i), size_of (ys ! i))"
proof -
  let ?g = "\<lambda>y. (key_of y, size_of y)"
  have split: "ys = take i ys @ ys ! i # drop (Suc i) ys"
    using i by (rule id_take_nth_drop)
  have pre: "\<forall>p \<in> set (map ?g (take i ys)). snd p < size_of (ys ! i)"
  proof
    fix p assume "p \<in> set (map ?g (take i ys))"
    then obtain y where y: "y \<in> set (take i ys)" and p: "p = ?g y" by auto
    from y obtain j where "j < length (take i ys)" and "take i ys ! j = y"
      by (auto simp: in_set_conv_nth)
    with i less have "size_of y < size_of (ys ! i)" by auto
    with p show "snd p < size_of (ys ! i)" by simp
  qed
  have post: "\<forall>p \<in> set (map ?g (drop (Suc i) ys)). snd p \<le> size_of (ys ! i)"
  proof
    fix p assume "p \<in> set (map ?g (drop (Suc i) ys))"
    then obtain y where y: "y \<in> set (drop (Suc i) ys)" and p: "p = ?g y" by auto
    from y have "y \<in> set ys" by (rule in_set_dropD)
    then obtain j where "j < length ys" and "ys ! j = y"
      by (auto simp: in_set_conv_nth)
    with le have "size_of y \<le> size_of (ys ! i)" by auto
    with p show "snd p \<le> size_of (ys ! i)" by simp
  qed
  have "map ?g ys = map ?g (take i ys) @ ?g (ys ! i) # map ?g (drop (Suc i) ys)"
    by (subst split) simp
  then show ?thesis
    using largest_from_pick [OF pre post pos, of k0 "key_of (ys ! i)"] by simp
qed

lemma decimal_nonempty: "decimal n \<noteq> []"
  by (subst decimal.simps) simp

lemma stringify_nonempty: "stringify v \<noteq> []"
  by (cases v) (auto simp: number_text_def decimal_nonempty quote_def)

lemma length_indexed: "length (indexed xs) = length xs"
  by (simp add: indexed_def)

lemma nth_indexed: "i < length xs \<Longrightarrow> indexed xs ! i = (Index i, xs ! i)"
  by (simp add: indexed_def)

lemma map_of_indexed: "i < length xs \<Longrightarrow> map_of (indexed xs) (Index i) = Some (xs ! i)"
proof -
  assume i: "i < length xs"
  have "distinct (map fst (indexed xs))"
    by (simp add: indexed_def distinct_map inj_on_def)
  moreover have "(Index i, xs ! i) \<in> set (indexed xs)"
    using i nth_indexed [OF i] length_indexed [of xs] by (metis nth_mem)
  ultimately show ?thesis by (rule map_of_is_SomeI)
qed

lemma map_of_named_entries: "map_of (named_entries kvs) (Name k) = map_of kvs k"
  by (induction kvs) (auto simp: named_entries_def)

lemma length_named_entries: "length (named_entries kvs) = length kvs"
  by (simp add: named_entries_def)

lemma nth_named_entries:
  "i < length kvs \<Longrightarrow> named_entries kvs ! i = (Name (fst (kvs ! i)), snd (kvs ! i))"
  by (simp add: named_entries_def case_prod_unfold)

lemma largest_serialized_indexed:
  assumes i: "i < length xs"
    and le: "\<forall>i' < length xs. length (stringify (xs ! i')) \<le> length (stringify (xs ! i))"
    and less: "\<forall>i' < i. length (stringify (xs ! i')) < length (stringify (xs ! i))"
  shows "largest_serialized (indexed xs) = (Index i, length (stringify (xs ! i)))"
proof -
  let ?size = "\<lambda>y. length (stringify (snd y))"
  let ?ys = "indexed xs"
  have 1: "i < length ?ys"
    using i by (simp add: length_indexed)
  have 2: "\<forall>j < length ?ys. ?size (?ys ! j) \<le> ?size (?ys ! i)"
    using le i by (simp add: length_indexed nth_indexed)
  have 3: "\<forall>j < i. ?size (?ys ! j) < ?size (?ys ! i)"
    using less i by (simp add: nth_indexed)
  have 4: "0 < ?size (?ys ! i)"
    using stringify_nonempty [of "snd (?ys ! i)"] by simp
  have "largest_from (Name []) 0 (map (\<lambda>y. (fst y, ?size y)) ?ys) =
        (fst (?ys ! i), ?size (?ys ! i))"
    using 1 2 3 4 by (rule largest_from_nth)
  with i show ?thesis
    by (simp add: largest_serialized_def case_prod_unfold nth_indexed)
qed

lemma largest_item_named:
  assumes m: "m < length items" and at: "items ! m = (k, v)" and v: "truthy v"
    and le: "\<forall>m' < length items. truthy (snd (items ! m')) \<longrightarrow>
           length (stringify (snd (items ! m'))) \<le> length (stringify v)"
    and less: "\<forall>m' < m. truthy (snd (items ! m')) \<longrightarrow>
           length (stringify (snd (items ! m'))) < length (stringify v)"
  shows "largest_item (named_entries items) = (Name k, length (stringify v))"
proof -
  let ?size = "\<lambda>y. if truthy (snd y) then length (stringify (snd y)) else 0"
  let ?ys = "named_entries items"
  have at': "?ys ! m = (Name k, v)"
    using m at by (simp add: nth_named_entries)
  have pos: "0 < length (stringify v)"
    using stringify_nonempty [of v] by simp
  have 1: "m < length ?ys"
    using m by (simp add: length_named_entries)
  have 2: "\<forall>j < length ?ys. ?size (?ys ! j) \<le> ?size (?ys ! m)"
    using le v at' by (simp add: length_named_entries nth_named_entries)
  have 3: "\<forall>j < m. ?size (?ys ! j) < ?size (?ys ! m)"
    using less v at' m pos by (simp add: nth_named_entries)
  have 4: "0 < ?size (?ys ! m)"
    using v at' pos by simp
  have "largest_from (Name []) 0 (map (\<lambda>y. (fst y, ?size y)) ?ys) =
        (fst (?ys ! m), ?size (?ys ! m))"
    using 1 2 3 4 by (rule largest_from_nth)
  with at' v show ?thesis
    by (simp add: largest_item_def case_prod_unfold)
qed

lemma shrink_iteration_largest:
  assumes "i < length data" and "data ! i = JObject eprops"
    and "\<forall>i' < length data. length (stringify (data ! i')) \<le> length (stringify (data ! i))"
    and "\<forall>i' < i. length (stringify (data ! i')) < length (stringify (data ! i))"
    and "map_of eprops ''_rawData'' = Some (JArray entries [])"
    and "j < length entries" and "entries ! j = JObject yprops"
    and "\<forall>j' < length entries.
           length (stringify (entries ! j')) \<le> length (stringify (entries ! j))"
    and "\<forall>j' < j. length (stringify (entries ! j')) < length (stringify (entries ! j))"
    and "map_of yprops ''rawData'' = Some (JObject items)"
    and "m < length items" and "items ! m = (k, v)" and "truthy v"
    and "\<forall>m' < length items. truthy (snd (items ! m')) \<longrightarrow>
           length (stringify (snd (items ! m'))) \<le> length (stringify v)"
    and "\<forall>m' < m. truthy (snd (items ! m')) \<longrightarrow>
           length (stringify (snd (items ! m'))) < length (stringify v)"
  shows "shrink_iteration data totalSize =
           Inr (data[i := JObject (obj_assign eprops ''_rawData''
                  (JArray (entries[j := JObject (obj_assign yprops ''rawData''
                     (JObject (obj_assign items k (JString ''TRUNCATED''))))]) []))],
                totalSize - int (length (stringify v)) + 11)"
proof -
  have e: "largest_serialized (indexed data) = (Index i, length (stringify (data ! i)))"
    using assms(1,3,4) by (rule largest_serialized_indexed)
  have r: "largest_serialized (indexed entries) = (Index j, length (stringify (entries ! j)))"
    using assms(6,8,9) by (rule largest_serialized_indexed)
  have it: "largest_item (named_entries items) = (Name k, length (stringify v))"
    using assms(11-15) by (rule largest_item_named)
  show ?thesis
    using assms(1,2,5,6,7,10)
    by (simp add: shrink_iteration_def named_entries_def [of "[]"] e r it
        map_of_indexed map_of_named_entries sizeOfTruncated_def byteLength_def)
qed

lemma get_prop_error: "get_prop v k = Inl e \<Longrightarrow> e = TypeError"
  by (cases "(v, k)" rule: get_prop.cases) auto

lemma set_prop_error: "set_prop w k v = Inl e \<Longrightarrow> e = TypeError"
  by (cases "(w, k, v)" rule: set_prop.cases) auto

text \<open>
  The only exception an iteration of the loop can raise is the runtime's
  \<open>TypeError\<close>: there is no error of the SDK's own for a batch that cannot shrink.
\<close>

lemma shrink_iteration_error: "shrink_iteration d t = Inl e \<Longrightarrow> e = TypeError"
  unfolding shrink_iteration_def Let_def
  by (auto split: sum.splits prod.splits json.splits dest: get_prop_error set_prop_error)

lemma all_less_Suc: "(\<forall>n < Suc k. P n) \<longleftrightarrow> (\<forall>n < k. P n) \<and> P k"
  by (auto simp: less_Suc_eq)

lemma stuck_batch_size: "int (byteLength (stringify (JArray stuck_batch []))) = 148"
  by (simp add: stuck_batch_def shrink_eval)

lemma stuck_batch_first: "shrink_iteration stuck_batch 148 = Inr (stuck_batch_truncated, 137)"
  by (simp add: stuck_batch_def stuck_batch_truncated_def shrink_eval)

lemma stuck_batch_again:
  "shrink_iteration stuck_batch_truncated 137 = Inr (stuck_batch_truncated, 137)"
  by (simp add: stuck_batch_truncated_def shrink_eval)

lemma stuck_batch_no_result:
  assumes "shrink_while m d t n = Some y"
  shows "\<not> (m = 100 \<and> d = stuck_batch_truncated \<and> t = 137)"
proof (rule shrink_while.raw_induct
    [where P = "\<lambda>m d t n y. \<not> (m = 100 \<and> d = stuck_batch_truncated \<and> t = 137)", OF _ assms])
  fix f :: "int \<Rightarrow> json list \<Rightarrow> int \<Rightarrow> nat \<Rightarrow> (error + json list \<times> int \<times> nat) option"
  fix m d t n y
  assume IH: "\<And>m d t n y. f m d t n = Some y \<Longrightarrow>
                \<not> (m = 100 \<and> d = stuck_batch_truncated \<and> t = 137)"
  assume eq: "(if m < t
      then case shrink_iteration d t of Inl e \<Rightarrow> Some (Inl e)
           | Inr (data', totalSize') \<Rightarrow> f m data' totalSize' (n + 1)
      else Some (Inr (d, t, n))) = Some y"
  show "\<not> (m = 100 \<and> d = stuck_batch_truncated \<and> t = 137)"
  proof
    assume "m = 100 \<and> d = stuck_batch_truncated \<and> t = 137"
    with eq have "f 100 stuck_batch_truncated 137 (n + 1) = Some y"
      by (simp add: stuck_batch_again)
    with IH show False by blast
  qed
qed

lemma stuck_batch_loops: "shrink_while 100 stuck_batch_truncated 137 n = None"
  using stuck_batch_no_result [of 100 stuck_batch_truncated 137 n]
  by (cases "shrink_while 100 stuck_batch_truncated 137 n") auto

text \<open>
  C3. The claim is that \<open>shrinkRawData\<close> terminates on every batch, aborting with
  \<open>CANNOT_SHRINK\<close> when an iteration cannot reduce the size. The loop has no such
  check. On a batch of 148 bytes with a limit of 100, whose only raw data field is 22
  bytes long, the first iteration brings the tracked size to 137; every later
  iteration replaces \<open>"TRUNCATED"\<close> by itself and leaves the size at 137, so the call
  never returns (\<open>None\<close>).
\<close>

theorem shrinkRawData_does_not_return: "shrinkRawData stuck_batch (Some 100) = None"
proof -
  have "shrinkRawData stuck_batch (Some 100) = shrink_while 100 stuck_batch 148 0"
    by (simp only: shrinkRawData_def stuck_batch_size option.case)
  also have "\<dots> = shrink_while 100 stuck_batch_truncated 137 1"
    by (subst shrink_while.simps) (simp add: stuck_batch_first)
  finally show ?thesis by (simp add: stuck_batch_loops)
qed

text \<open>
  C4 (as amended). An iteration of the loop of \<open>shrinkRawData\<close> takes the first entity
  with the largest serialisation, in its \<open>_rawData\<close> array the first entry with the
  largest serialisation, and in that entry's \<open>rawData\<close> object the first field with
  the largest serialised value among the fields whose value is truthy (a falsy value
  counts as size 0); it replaces the value of that field by the string \<open>TRUNCATED\<close>
  and the tracked size by itself less the old serialised length of the field plus 11,
  the byte length of \<open>'TRUNCATED'\<close>; the batch is not serialised again. The limit is
  6,275,072 bytes unless the caller gives another. When the batch is over the limit and
  that one iteration brings the tracked size within it, \<open>shrinkRawData\<close> returns the
  batch with that field truncated, the new size and one item removed.
\<close>

theorem shrinkRawData_truncates_largest:
  assumes "i < length data" and "data ! i = JObject eprops"
    and "\<forall>i' < length data. length (stringify (data ! i')) \<le> length (stringify (data ! i))"
    and "\<forall>i' < i. length (stringify (data ! i')) < length (stringify (data ! i))"
    and "map_of eprops ''_rawData'' = Some (JArray entries [])"
    and "j < length entries" and "entries ! j = JObject yprops"
    and "\<forall>j' < length entries.
           length (stringify (entries ! j')) \<le> length (stringify (entries ! j))"
    and "\<forall>j' < j. length (stringify (entries ! j')) < length (stringify (entries ! j))"
    and "map_of yprops ''rawData'' = Some (JObject items)"
    and "m < length items" and "items ! m = (k, v)" and "truthy v"
    and "\<forall>m' < length items. truthy (snd (items ! m')) \<longrightarrow>
           length (stringify (snd (items ! m'))) \<le> length (stringify v)"
    and "\<forall>m' < m. truthy (snd (items ! m')) \<longrightarrow>
           length (stringify (snd (items ! m'))) < length (stringify v)"
  shows "shrink_iteration data totalSize =
           Inr (data[i := JObject (obj_assign eprops ''_rawData''
                  (JArray (entries[j := JObject (obj_assign yprops ''rawData''
                     (JObject (obj_assign items k (JString ''TRUNCATED''))))]) []))],
                totalSize - int (length (stringify v)) + sizeOfTruncated)
       \<and> sizeOfTruncated = 11
       \<and> shrinkRawData data None = shrinkRawData data (Some 6275072)
       \<and> (maxSize < int (byteLength (stringify (JArray data [])))
            \<and> int (byteLength (stringify (JArray data []))) - int (length (stringify v)) + 11
                 \<le> maxSize \<longrightarrow>
          shrinkRawData data (Some maxSize) =
            Some (Inr (data[i := JObject (obj_assign eprops ''_rawData''
                         (JArray (entries[j := JObject (obj_assign yprops ''rawData''
                            (JObject (obj_assign items k (JString ''TRUNCATED''))))]) []))],
                       int (byteLength (stringify (JArray data []))) - int (length (stringify v))
                         + 11,
                       1)))"
proof -
  let ?data' = "data[i := JObject (obj_assign eprops ''_rawData''
                  (JArray (entries[j := JObject (obj_assign yprops ''rawData''
                     (JObject (obj_assign items k (JString ''TRUNCATED''))))]) []))]"
  let ?bytes = "int (byteLength (stringify (JArray data [])))"
  let ?size' = "?bytes - int (length (stringify v)) + 11"
  have iteration: "shrink_iteration data t = Inr (?data', t - int (length (stringify v)) + 11)"
    for t
    using assms by (rule shrink_iteration_largest)
  have eleven: "sizeOfTruncated = 11"
    by (simp add: sizeOfTruncated_def byteLength_def)
  have default: "shrinkRawData data None = shrinkRawData data (Some 6275072)"
    by (simp add: shrinkRawData_def UPLOAD_SIZE_MAX_def)
  have returns: "shrinkRawData data (Some maxSize) = Some (Inr (?data', ?size', 1))"
    if over: "maxSize < ?bytes" and within: "?size' \<le> maxSize"
  proof -
    have "shrinkRawData data (Some maxSize) = shrink_while maxSize data ?bytes 0"
      by (simp add: shrinkRawData_def)
    also have "\<dots> = shrink_while maxSize ?data' ?size' 1"
      using over by (subst shrink_while.simps) (simp add: iteration)
    also have "\<dots> = Some (Inr (?data', ?size', 1))"
      using within by (subst shrink_while.simps) simp
    finally show ?thesis .
  qed
  from iteration [of totalSize] eleven default returns show ?thesis
    by simp
qed

theorem shrinkRawData_truncates_largest_witness:
  "shrink_iteration mixed_batch 236 = Inr (mixed_batch_truncated, 225)
   \<and> sizeOfTruncated = 11
   \<and> shrinkRawData mixed_batch None = shrinkRawData mixed_batch (Some 6275072)
   \<and> shrinkRawData mixed_batch (Some 230) = Some (Inr (mixed_batch_truncated, 225, 1))"
proof -
  let ?entries = "[JObject small_entry, JObject large_entry]"
  let ?v = "JString ''01234567890123456789''"
  have sizes: "length (stringify (JObject small_entity)) = 63"
    "length (stringify (JObject large_entity)) = 170"
    "length (stringify (JObject small_entry)) = 34"
    "length (stringify (JObject large_entry)) = 109"
    "length (stringify ?v) = 22"
    by (simp_all add: small_entity_def large_entity_def small_entry_def
        large_entry_def large_fields_def quote_def escape_char_def number_text_def
        decimal.simps digit_char_def)
  have bytes: "int (byteLength (stringify (JArray mixed_batch []))) = 236"
    by (simp add: mixed_batch_def small_entity_def large_entity_def small_entry_def
        large_entry_def large_fields_def quote_def escape_char_def number_text_def
        decimal.simps digit_char_def byteLength_def)
  have e1: "1 < length mixed_batch" and e2: "mixed_batch ! 1 = JObject large_entity"
    by (simp_all add: mixed_batch_def)
  have e3: "\<forall>i' < length mixed_batch.
      length (stringify (mixed_batch ! i')) \<le> length (stringify (mixed_batch ! 1))"
    and e4: "\<forall>i' < 1.
      length (stringify (mixed_batch ! i')) < length (stringify (mixed_batch ! 1))"
    by (simp_all add: mixed_batch_def all_less_Suc sizes del: stringify.simps)
  have r0: "map_of large_entity ''_rawData'' = Some (JArray ?entries [])"
    by (simp add: large_entity_def)
  have r1: "1 < length ?entries" and r2: "?entries ! 1 = JObject large_entry"
    by simp_all
  have r3: "\<forall>j' < length ?entries.
      length (stringify (?entries ! j')) \<le> length (stringify (?entries ! 1))"
    and r4: "\<forall>j' < 1.
      length (stringify (?entries ! j')) < length (stringify (?entries ! 1))"
    by (simp_all add: all_less_Suc sizes del: stringify.simps)
  have f0: "map_of large_entry ''rawData'' = Some (JObject large_fields)"
    by (simp add: large_entry_def)
  have f1: "1 < length large_fields" and f2: "large_fields ! 1 = (''payload'', ?v)"
    and f3: "truthy ?v"
    by (simp_all add: large_fields_def)
  have f4: "\<forall>m' < length large_fields. truthy (snd (large_fields ! m')) \<longrightarrow>
      length (stringify (snd (large_fields ! m'))) \<le> length (stringify ?v)"
    and f5: "\<forall>m' < 1. truthy (snd (large_fields ! m')) \<longrightarrow>
      length (stringify (snd (large_fields ! m'))) < length (stringify ?v)"
    by (simp_all add: large_fields_def all_less_Suc quote_def escape_char_def)
  have truncated: "mixed_batch[1 := JObject (obj_assign large_entity ''_rawData''
        (JArray (?entries
           [1 := JObject (obj_assign large_entry ''rawData''
              (JObject (obj_assign large_fields ''payload'' (JString ''TRUNCATED''))))]) []))] =
      mixed_batch_truncated"
    by (simp add: mixed_batch_truncated_def mixed_batch_def large_entity_def large_entry_def
        large_fields_def)
  show ?thesis
    using shrinkRawData_truncates_largest
      [OF e1 e2 e3 e4 r0 r1 r2 r3 r4 f0 f1 f2 f3 f4 f5, of 236 230]
    by (simp only: truncated bytes sizes) simp
qed

text \<open>
  The claim as stated has the field with the largest serialised value truncated. In
  \<open>falsy_batch\<close> (84 bytes) the only raw data holds \<open>enabled: false\<close> (5 characters)
  and \<open>count: 5\<close> (1 character). By the claim an iteration leaves
  \<open>falsy_batch_largest_truncated\<close>, with \<open>enabled\<close> truncated, and the size
  84 - 5 + 11 = 90. The iteration truncates \<open>count\<close>, because a falsy value counts as
  size 0, and the tracked size is 84 - 1 + 11 = 94.
\<close>

theorem shrinkRawData_falsy_field_counterexample:
  "length (stringify (JBool False)) = 5 \<and> length (stringify (JNumber False 5)) = 1
   \<and> int (byteLength (stringify (JArray falsy_batch []))) = 84
   \<and> shrink_iteration falsy_batch 84 = Inr (falsy_batch_truncated, 94)
   \<and> shrink_iteration falsy_batch 84 \<noteq> Inr (falsy_batch_largest_truncated, 90)"
proof -
  have "shrink_iteration falsy_batch 84 = Inr (falsy_batch_truncated, 94)"
    by (simp add: falsy_batch_def falsy_batch_truncated_def shrink_eval)
  moreover have "int (byteLength (stringify (JArray falsy_batch []))) = 84"
    by (simp add: falsy_batch_def shrink_eval)
  ultimately show ?thesis
    by (simp add: number_text_def decimal.simps digit_char_def)
qed

section \<open>Batches and their upload\<close>












section \<open>Retrying a batch\<close>











section \<open>The event queue and the finalization\<close>

lemma synchronizeCollectedData_shape:
  "initiate_result env = Inr u \<Longrightarrow>
     \<exists>body. fst (synchronizeCollectedData env) = body @ [QueueOnIdle]"
  by (auto simp: synchronizeCollectedData_def on_sync_error_def Let_def split: sum.splits)

lemma enqueued_append:
  "enqueued emits before (xs @ ys) = enqueued emits before xs @ enqueued emits (before @ xs) ys"
  by (induction xs arbitrary: before) auto

lemma sync_step_inv:
  assumes step: "sync_step emits s t"
    and acts: "actions = body @ [QueueOnIdle]"
    and inv1: "performed s @ todo s = actions"
    and inv2: "published s @ queue s = enqueued emits [] (performed s)"
    and inv3: "todo s = [] \<longrightarrow> queue s = []"
  shows "performed t @ todo t = actions
       \<and> published t @ queue t = enqueued emits [] (performed t)
       \<and> (todo t = [] \<longrightarrow> queue t = [])"
  using step
proof cases
  case (act a rest)
  have "rest \<noteq> []"
  proof
    assume "rest = []"
    with act(2) inv1 acts have "a = QueueOnIdle" by auto
    with act(3) show False by contradiction
  qed
  with act inv1 inv2 show ?thesis
    by (simp add: enqueued_append)
next
  case (idle rest)
  with inv1 inv2 show ?thesis
    by (simp add: enqueued_append)
next
  case (publish e q)
  with inv3 have "todo s \<noteq> []" by auto
  with publish inv1 inv2 show ?thesis
    by simp
qed

lemma sync_run_inv:
  assumes run: "(sync_step emits)\<^sup>*\<^sup>* s0 s"
    and acts: "actions = body @ [QueueOnIdle]"
    and start: "todo s0 = actions" "performed s0 = []" "queue s0 = []" "published s0 = []"
  shows "performed s @ todo s = actions
       \<and> published s @ queue s = enqueued emits [] (performed s)
       \<and> (todo s = [] \<longrightarrow> queue s = [])"
  using run
proof (induction rule: rtranclp_induct)
  case base
  from start acts show ?case by simp
next
  case (step s t)
  from step.hyps(2) acts step.IH show ?case
    by (intro sync_step_inv [where s = s and body = body]) auto
qed

lemma all_succeed_actions:
  "fst (synchronizeCollectedData all_succeed) =
     [Initiate, AttachQueue, Upload, GetPartialDatasets, Finalize, QueueOnIdle]"
  by (simp add: synchronizeCollectedData_def all_succeed_def)

lemma act_step:
  "sync_step emits \<lparr>todo = a # rest, performed = p, queue = q, published = d\<rparr>
     \<lparr>todo = rest, performed = p @ [a],
      queue = q @ (if AttachQueue \<in> set p then emits a else []), published = d\<rparr>"
  if "a \<noteq> QueueOnIdle"
  using sync_step.act [of "\<lparr>todo = a # rest, performed = p, queue = q, published = d\<rparr>" a rest emits] that
  by simp

lemma all_succeed_run_to_finalize:
  "sync_run upload_end_event all_succeed finalized_with_event_queued"
proof -
  let ?s = "\<lambda>t p q. \<lparr>todo = t, performed = p, queue = q, published = []\<rparr>"
  have 1: "sync_step upload_end_event
      (?s [Initiate, AttachQueue, Upload, GetPartialDatasets, Finalize, QueueOnIdle] [] [])
      (?s [AttachQueue, Upload, GetPartialDatasets, Finalize, QueueOnIdle] [Initiate] [])"
    using act_step [of Initiate upload_end_event _ "[]" "[]" "[]"] by simp
  have 2: "sync_step upload_end_event
      (?s [AttachQueue, Upload, GetPartialDatasets, Finalize, QueueOnIdle] [Initiate] [])
      (?s [Upload, GetPartialDatasets, Finalize, QueueOnIdle] [Initiate, AttachQueue] [])"
    using act_step [of AttachQueue upload_end_event _ "[Initiate]" "[]" "[]"]
    by (simp add: upload_end_event_def)
  have 3: "sync_step upload_end_event
      (?s [Upload, GetPartialDatasets, Finalize, QueueOnIdle] [Initiate, AttachQueue] [])
      (?s [GetPartialDatasets, Finalize, QueueOnIdle] [Initiate, AttachQueue, Upload]
          [''sync_upload_end''])"
    using act_step [of Upload upload_end_event _ "[Initiate, AttachQueue]" "[]" "[]"]
    by (simp add: upload_end_event_def)
  have 4: "sync_step upload_end_event
      (?s [GetPartialDatasets, Finalize, QueueOnIdle] [Initiate, AttachQueue, Upload]
          [''sync_upload_end''])
      (?s [Finalize, QueueOnIdle] [Initiate, AttachQueue, Upload, GetPartialDatasets]
          [''sync_upload_end''])"
    using act_step [of GetPartialDatasets upload_end_event _ "[Initiate, AttachQueue, Upload]"
        "[''sync_upload_end'']" "[]"]
    by (simp add: upload_end_event_def)
  have 5: "sync_step upload_end_event
      (?s [Finalize, QueueOnIdle] [Initiate, AttachQueue, Upload, GetPartialDatasets]
          [''sync_upload_end''])
      (?s [QueueOnIdle] [Initiate, AttachQueue, Upload, GetPartialDatasets, Finalize]
          [''sync_upload_end''])"
    using act_step [of Finalize upload_end_event _
        "[Initiate, AttachQueue, Upload, GetPartialDatasets]" "[''sync_upload_end'']" "[]"]
    by (simp add: upload_end_event_def)
  let ?R = "sync_step upload_end_event"
  have "?R\<^sup>*\<^sup>*
      (?s [Initiate, AttachQueue, Upload, GetPartialDatasets, Finalize, QueueOnIdle] [] [])
      (?s [QueueOnIdle] [Initiate, AttachQueue, Upload, GetPartialDatasets, Finalize]
          [''sync_upload_end''])"
    by (rule converse_rtranclp_into_rtranclp [of ?R, OF 1],
        rule converse_rtranclp_into_rtranclp [of ?R, OF 2],
        rule converse_rtranclp_into_rtranclp [of ?R, OF 3],
        rule converse_rtranclp_into_rtranclp [of ?R, OF 4],
        rule r_into_rtranclp [of ?R, OF 5])
  then show ?thesis
    by (simp add: sync_run_def sync_start_def all_succeed_actions finalized_with_event_queued_def)
qed

lemma all_succeed_run_to_end:
  "sync_run upload_end_event all_succeed drained_after_finalize"
proof -
  let ?R = "sync_step upload_end_event"
  have 1: "?R finalized_with_event_queued
      \<lparr>todo = [QueueOnIdle],
       performed = [Initiate, AttachQueue, Upload, GetPartialDatasets, Finalize],
       queue = [], published = [''sync_upload_end'']\<rparr>"
    using sync_step.publish [of finalized_with_event_queued "''sync_upload_end''" "[]"
        upload_end_event]
    by (simp add: finalized_with_event_queued_def)
  have 2: "?R
      \<lparr>todo = [QueueOnIdle],
       performed = [Initiate, AttachQueue, Upload, GetPartialDatasets, Finalize],
       queue = [], published = [''sync_upload_end'']\<rparr>
      drained_after_finalize"
    using sync_step.idle [of "\<lparr>todo = [QueueOnIdle],
       performed = [Initiate, AttachQueue, Upload, GetPartialDatasets, Finalize],
       queue = [], published = [''sync_upload_end'']\<rparr>" "[]" upload_end_event]
    by (simp add: drained_after_finalize_def)
  from all_succeed_run_to_finalize have "?R\<^sup>*\<^sup>* (sync_start all_succeed) finalized_with_event_queued"
    by (simp add: sync_run_def)
  from this 1 have "?R\<^sup>*\<^sup>* (sync_start all_succeed)
      \<lparr>todo = [QueueOnIdle],
       performed = [Initiate, AttachQueue, Upload, GetPartialDatasets, Finalize],
       queue = [], published = [''sync_upload_end'']\<rparr>"
    by (rule rtranclp.rtrancl_into_rtrancl)
  from this 2 have "?R\<^sup>*\<^sup>* (sync_start all_succeed) drained_after_finalize"
    by (rule rtranclp.rtrancl_into_rtrancl)
  then show ?thesis by (simp add: sync_run_def)
qed

text \<open>
  C7 (as amended). Once the job is initiated, \<open>synchronizeCollectedData\<close> completes
  (returns or throws) only after the event queue is drained: when no action is left,
  the queue is empty and every event emitted since the queue was attached has been
  published, on the success path and on every error path. The drain is awaited last,
  after the finalize (or abort) call, not before it.
\<close>

theorem synchronizeCollectedData_drains_queue:
  assumes "sync_run emits env s" and "initiate_result env = Inr u" and "todo s = []"
  shows "queue s = []
       \<and> published s = enqueued emits [] (fst (synchronizeCollectedData env))
       \<and> performed s = fst (synchronizeCollectedData env)
       \<and> last (performed s) = QueueOnIdle"
proof -
  from assms(2) obtain body where
    body: "fst (synchronizeCollectedData env) = body @ [QueueOnIdle]"
    using synchronizeCollectedData_shape by blast
  have "performed s @ todo s = fst (synchronizeCollectedData env)
       \<and> published s @ queue s = enqueued emits [] (performed s)
       \<and> (todo s = [] \<longrightarrow> queue s = [])"
    by (rule sync_run_inv [OF assms(1) [unfolded sync_run_def] body])
      (simp_all add: sync_start_def)
  with assms(3) body show ?thesis by auto
qed

theorem synchronizeCollectedData_drains_queue_witness:
  "sync_run upload_end_event all_succeed drained_after_finalize
   \<and> initiate_result all_succeed = Inr ()
   \<and> todo drained_after_finalize = []
   \<and> queue drained_after_finalize = []
   \<and> published drained_after_finalize = [''sync_upload_end'']
   \<and> last (performed drained_after_finalize) = QueueOnIdle"
proof -
  have i: "initiate_result all_succeed = Inr ()"
    by (simp add: all_succeed_def)
  have t: "todo drained_after_finalize = []"
    by (simp add: drained_after_finalize_def)
  from synchronizeCollectedData_drains_queue [OF all_succeed_run_to_end i t]
  show ?thesis
    using all_succeed_run_to_end i t
    by (simp add: drained_after_finalize_def all_succeed_actions)
qed

text \<open>
  The claim as stated has the queue drained before the finalize call returns. In the
  run below the logger emits an event at the end of the upload; the job is finalized
  while that event is still on the queue.
\<close>

theorem finalize_before_drain_counterexample:
  "sync_run upload_end_event all_succeed finalized_with_event_queued"
  by (rule all_succeed_run_to_finalize)

section \<open>Runs of the tests\<close>

text \<open>The model gives the results that the tests of the repository expect.\<close>

lemmas run_eval = executeIntegrationInstance_def start_states_missing_def executeSteps_def
  run_step_def is_disabled_def is_ready_def step_declaredTypes_def step_partialTypes_def
  uniq_concat_def add_uniq_def addEntity_def dependency_failed_def result_status_def
  determinePartialDatasetsFromStepExecutionResults_def step_partial_datasets_def
  test_entity_def partial_entity_def dup_entity_def

lemma disabled_step_run:
  "executeIntegrationInstance disabled_step_config = ([''my-step-a''], Inr disabled_step_expected)"
  by (simp add: disabled_step_config_def disabled_step_expected_def run_eval)

lemma duplicate_within_step_run:
  "executeIntegrationInstance duplicate_within_step_config =
     ([''a''],
      Inr \<lparr>integrationStepResults =
             [\<lparr>r_id = ''a'', r_name = ''a'', declaredTypes = [''duplicate_entity''],
               partialTypes = [], encounteredTypes = [''duplicate_entity''],
               r_dependsOn = None, status = FAILURE\<rparr>],
           partialDatasets_types = [''duplicate_entity'']\<rparr>)"
  by (simp add: duplicate_within_step_config_def run_eval)

lemma duplicate_across_steps_run:
  "executeIntegrationInstance duplicate_across_steps_config =
     ([''a'', ''b''],
      Inr \<lparr>integrationStepResults =
             [\<lparr>r_id = ''a'', r_name = ''a'', declaredTypes = [''duplicate_entity''],
               partialTypes = [], encounteredTypes = [''duplicate_entity''],
               r_dependsOn = None, status = SUCCESS\<rparr>,
              \<lparr>r_id = ''b'', r_name = ''b'', declaredTypes = [''duplicate_entity''],
               partialTypes = [], encounteredTypes = [],
               r_dependsOn = None, status = FAILURE\<rparr>],
           partialDatasets_types = [''duplicate_entity'']\<rparr>)"
  by (simp add: duplicate_across_steps_config_def run_eval)

lemma dependency_failure_run:
  "executeIntegrationInstance dependency_failure_config =
     ([''my-step-a'', ''my-step-b''],
      Inr \<lparr>integrationStepResults =
             [\<lparr>r_id = ''my-step-a'', r_name = ''My awesome step'',
               declaredTypes = [''test_a''], partialTypes = [],
               encounteredTypes = [], r_dependsOn = None, status = FAILURE\<rparr>,
              \<lparr>r_id = ''my-step-b'', r_name = ''My awesome step'',
               declaredTypes = [''test_b'', ''test_b2''], partialTypes = [''test_b2''],
               encounteredTypes = [], r_dependsOn = Some [''my-step-a''],
               status = PARTIAL_SUCCESS_DUE_TO_DEPENDENCY_FAILURE\<rparr>],
           partialDatasets_types = [''test_a'', ''test_b2'', ''test_b'']\<rparr>)"
  by (simp add: dependency_failure_config_def run_eval)

section \<open>Partial datasets\<close>

lemma set_add_uniq: "set (add_uniq xs x) = insert x (set xs)"
  by (auto simp: add_uniq_def)

lemma set_uniq_concat: "set (uniq_concat xs ys) = set xs \<union> set ys"
  unfolding uniq_concat_def
  by (induction ys arbitrary: xs) (auto simp: set_add_uniq)

lemma set_fold_partial_datasets:
  "set (fold (\<lambda>r types. uniq_concat types (step_partial_datasets r)) results acc) =
     set acc \<union> (\<Union>r \<in> set results. set (step_partial_datasets r))"
  by (induction results arbitrary: acc) (auto simp: set_uniq_concat)

lemma set_determinePartialDatasets:
  "set (determinePartialDatasetsFromStepExecutionResults results) =
     (\<Union>r \<in> {r \<in> set results. status r = FAILURE
                  \<or> status r = PARTIAL_SUCCESS_DUE_TO_DEPENDENCY_FAILURE}. set (declaredTypes r))
     \<union> (\<Union>r \<in> {r \<in> set results. status r \<noteq> DISABLED}. set (partialTypes r))"
  unfolding determinePartialDatasetsFromStepExecutionResults_def set_fold_partial_datasets
  by (auto simp: step_partial_datasets_def split: if_splits)

lemma executeIntegrationInstance_types:
  "executeIntegrationInstance config = (invoked, Inr result) \<Longrightarrow>
     partialDatasets_types result =
       determinePartialDatasetsFromStepExecutionResults (integrationStepResults result)"
  by (auto simp: executeIntegrationInstance_def Let_def
      split: option.splits if_splits prod.splits)

text \<open>
  C1 (as amended). For every run, the types of the partial datasets are the union of
  the \<open>declaredTypes\<close> of the steps with status \<open>FAILURE\<close>, the \<open>declaredTypes\<close>
  of the steps with status \<open>PARTIAL_SUCCESS_DUE_TO_DEPENDENCY_FAILURE\<close>, and the
  \<open>partialTypes\<close> of every step whose status is not \<open>DISABLED\<close>: a disabled step
  contributes nothing, also when its declared entity carries \<open>partial: true\<close>.
\<close>

theorem partialDatasets_union:
  assumes "executeIntegrationInstance config = (invoked, Inr result)"
  shows "set (partialDatasets_types result) =
     (\<Union>r \<in> {r \<in> set (integrationStepResults result). status r = FAILURE
                  \<or> status r = PARTIAL_SUCCESS_DUE_TO_DEPENDENCY_FAILURE}. set (declaredTypes r))
     \<union> (\<Union>r \<in> {r \<in> set (integrationStepResults result). status r \<noteq> DISABLED}.
           set (partialTypes r))"
  using executeIntegrationInstance_types [OF assms]
  by (simp only: set_determinePartialDatasets)

theorem partialDatasets_union_witness:
  "set (partialDatasets_types disabled_step_expected) =
     (\<Union>r \<in> {r \<in> set (integrationStepResults disabled_step_expected). status r = FAILURE
                  \<or> status r = PARTIAL_SUCCESS_DUE_TO_DEPENDENCY_FAILURE}. set (declaredTypes r))
     \<union> (\<Union>r \<in> {r \<in> set (integrationStepResults disabled_step_expected). status r \<noteq> DISABLED}.
           set (partialTypes r))"
  by (rule partialDatasets_union [OF disabled_step_run])

text \<open>
  The claim as stated has a disabled step contribute its \<open>partialTypes\<close>. In the run
  of the test \<open>does not include partialTypes for disabled steps\<close>, step \<open>my-step-b\<close>
  is \<open>DISABLED\<close> with the partial type \<open>test_b\<close>, and the types of the partial
  datasets are \<open>test_a\<close> alone, as the test expects; the union of the claim holds
  \<open>test_b\<close> as well.
\<close>

theorem disabled_step_partialTypes_counterexample:
  "executeIntegrationInstance disabled_step_config = ([''my-step-a''], Inr disabled_step_expected)
   \<and> map status (integrationStepResults disabled_step_expected) = [FAILURE, DISABLED]
   \<and> map partialTypes (integrationStepResults disabled_step_expected) = [[], [''test_b'']]
   \<and> partialDatasets_types disabled_step_expected = [''test_a'']
   \<and> spec_partial_datasets (integrationStepResults disabled_step_expected) =
       [''test_a'', ''test_b'']"
  using disabled_step_run
  by (simp add: disabled_step_expected_def spec_partial_datasets_def uniq_concat_def
      add_uniq_def)

section \<open>Start states\<close>

text \<open>
  C8. When \<open>getStepStartStates\<close> is given (so \<open>validateInvocation\<close> has passed) and
  its result has no entry for some step of the configuration,
  \<open>executeIntegrationInstance\<close> rejects with the fatal configuration error for missing
  start states; no step handler was invoked and there are no step results.
\<close>

theorem missing_start_states_rejected:
  assumes "validateInvocation config = None"
    and "getStepStartStates config = Some states"
    and "s \<in> set (integrationSteps config)" and "states (step_id s) = None"
  shows "executeIntegrationInstance config =
           ([], Inl (IntegrationError ''START_STATES_MISSING'' True))"
  using assms by (auto simp: executeIntegrationInstance_def start_states_missing_def)

theorem missing_start_states_rejected_witness:
  "executeIntegrationInstance missing_start_states_config =
     ([], Inl (IntegrationError ''START_STATES_MISSING'' True))"
  using missing_start_states_rejected
    [of missing_start_states_config "map_of []" "hd (integrationSteps missing_start_states_config)"]
  by (simp add: missing_start_states_config_def)

section \<open>Duplicate keys\<close>

lemma addEntity_duplicate:
  "e_key e \<in> set (map e_key (js_store js)) \<Longrightarrow>
     addEntity js e = Inl (IntegrationError ''DUPLICATE_KEY'' False)"
  by (simp add: addEntity_def)

lemma addEntity_added:
  assumes "addEntity js e = Inr js'"
  shows "js_store js' = js_store js @ [e]
       \<and> set (js_encounteredTypes js') = insert (e_type e) (set (js_encounteredTypes js))
       \<and> (distinct (map e_key (js_store js)) \<longrightarrow> distinct (map e_key (js_store js')))"
  using assms by (auto simp: addEntity_def set_add_uniq split: if_splits)

lemma addEntities_added:
  assumes "addEntities js es = (js', failure)"
  shows "\<exists>added. js_store js' = js_store js @ added
       \<and> set (js_encounteredTypes js') = set (js_encounteredTypes js) \<union> e_type ` set added
       \<and> (distinct (map e_key (js_store js)) \<longrightarrow> distinct (map e_key (js_store js')))"
  using assms
proof (induction es arbitrary: js)
  case Nil
  then show ?case by auto
next
  case (Cons e es)
  show ?case
  proof (cases "addEntity js e")
    case (Inl err)
    with Cons.prems show ?thesis by auto
  next
    case (Inr js1)
    with Cons.prems have "addEntities js1 es = (js', failure)" by simp
    from Cons.IH [OF this] obtain added where
      a: "js_store js' = js_store js1 @ added"
        "set (js_encounteredTypes js') = set (js_encounteredTypes js1) \<union> e_type ` set added"
        "distinct (map e_key (js_store js1)) \<longrightarrow> distinct (map e_key (js_store js'))"
      by blast
    from addEntity_added [OF Inr] a show ?thesis
      by (intro exI [of _ "e # added"]) auto
  qed
qed

lemma run_handler_added:
  assumes "run_handler js ops = (js', failure)"
  shows "\<exists>added. js_store js' = js_store js @ added
       \<and> set (js_encounteredTypes js') = set (js_encounteredTypes js) \<union> e_type ` set added
       \<and> (distinct (map e_key (js_store js)) \<longrightarrow> distinct (map e_key (js_store js')))"
  using assms
proof (induction js ops rule: run_handler.induct)
  case (1 js)
  then show ?case by auto
next
  case (2 js e ops)
  show ?case
  proof (cases "addEntity js e")
    case (Inl err)
    with 2(2) show ?thesis by auto
  next
    case (Inr js1)
    with 2(2) have "run_handler js1 ops = (js', failure)" by simp
    from 2(1) [OF Inr this] obtain added where
      a: "js_store js' = js_store js1 @ added"
        "set (js_encounteredTypes js') = set (js_encounteredTypes js1) \<union> e_type ` set added"
        "distinct (map e_key (js_store js1)) \<longrightarrow> distinct (map e_key (js_store js'))"
      by blast
    from addEntity_added [OF Inr] a show ?thesis
      by (intro exI [of _ "e # added"]) auto
  qed
next
  case (3 js es ops)
  obtain js1 f1 where r: "addEntities js es = (js1, f1)" by (cases "addEntities js es")
  from addEntities_added [OF r] obtain added1 where
    a1: "js_store js1 = js_store js @ added1"
      "set (js_encounteredTypes js1) = set (js_encounteredTypes js) \<union> e_type ` set added1"
      "distinct (map e_key (js_store js)) \<longrightarrow> distinct (map e_key (js_store js1))"
    by blast
  show ?case
  proof (cases f1)
    case (Some err)
    with r 3(2) have "js' = js1" by simp
    with a1 show ?thesis by blast
  next
    case None
    with r 3(2) have "run_handler js1 ops = (js', failure)" by simp
    from 3(1) [OF r [symmetric] None this] obtain added where
      a: "js_store js' = js_store js1 @ added"
        "set (js_encounteredTypes js') = set (js_encounteredTypes js1) \<union> e_type ` set added"
        "distinct (map e_key (js_store js1)) \<longrightarrow> distinct (map e_key (js_store js'))"
      by blast
    from a1 a show ?thesis
      by (intro exI [of _ "added1 @ added"]) auto
  qed
next
  case (4 js message ops)
  then show ?case by auto
qed

lemma run_handler_append:
  "run_handler js (pre @ ops) =
     (case run_handler js pre of
        (js1, None) \<Rightarrow> run_handler js1 ops
      | (js1, Some err) \<Rightarrow> (js1, Some err))"
  by (induction js pre rule: run_handler.induct) (auto split: sum.splits prod.splits option.splits)

lemma run_step_distinct:
  assumes "run_step disabled (stored, invoked, results) s = (stored', invoked', results')"
    and "distinct (map e_key stored)"
  shows "distinct (map e_key stored')"
proof (cases "disabled (step_id s)")
  case True
  with assms show ?thesis by (simp add: run_step_def Let_def)
next
  case False
  obtain js failure where
    h: "run_handler \<lparr>js_store = stored, js_encounteredTypes = []\<rparr> (executionHandler s) = (js, failure)"
    by (cases "run_handler \<lparr>js_store = stored, js_encounteredTypes = []\<rparr> (executionHandler s)")
  with False assms(1) have "stored' = js_store js"
    by (simp add: run_step_def Let_def)
  with run_handler_added [OF h] assms(2) show ?thesis by auto
qed

lemma fold_run_step_distinct:
  "distinct (map e_key (fst st)) \<Longrightarrow>
     distinct (map e_key (fst (fold (\<lambda>s st. run_step disabled st s) ordered st)))"
proof (induction ordered arbitrary: st)
  case Nil
  then show ?case by simp
next
  case (Cons s ordered)
  obtain stored invoked results where st: "st = (stored, invoked, results)" by (cases st)
  obtain stored' invoked' results' where
    r: "run_step disabled (stored, invoked, results) s = (stored', invoked', results')"
    by (cases "run_step disabled (stored, invoked, results) s")
  from Cons.prems st have "distinct (map e_key stored)" by simp
  with r have "distinct (map e_key stored')" by (rule run_step_distinct)
  with Cons.IH [of "(stored', invoked', results')"] st r show ?case by simp
qed

lemma executeSteps_distinct: "distinct (map e_key (fst (executeSteps config ordered)))"
  unfolding executeSteps_def by (rule fold_run_step_distinct) simp

lemma failed_step_datasets:
  "status r = FAILURE \<Longrightarrow>
     set (declaredTypes r) \<subseteq> set (determinePartialDatasetsFromStepExecutionResults (results @ [r]))"
  by (auto simp: set_determinePartialDatasets)

text \<open>
  C2 (as amended). The keys of the entities in the store are distinct after every run.
  Adding an entity whose \<open>_key\<close> is in the store, whether a prior step or the same
  step added the earlier entity, fails with \<open>DUPLICATE_KEY\<close> and ends the handler.
  A step whose handler fails has status \<open>FAILURE\<close>; its \<open>encounteredTypes\<close> are
  the types of the entities it added before the failure; and its \<open>declaredTypes\<close>
  are among the types of the partial datasets (so an encountered type is, when the
  step declared it).
\<close>

theorem duplicate_key_fails_step:
  "(e_key e \<in> set (map e_key (js_store js0)) \<longrightarrow>
      addEntity js0 e = Inl (IntegrationError ''DUPLICATE_KEY'' False)
      \<and> (run_handler js pre = (js0, None) \<longrightarrow>
           run_handler js (pre @ AddEntity e # post) =
             (js0, Some (IntegrationError ''DUPLICATE_KEY'' False))))
   \<and> distinct (map e_key (fst (executeSteps config ordered)))
   \<and> (\<not> disabled (step_id s)
        \<and> run_handler \<lparr>js_store = stored, js_encounteredTypes = []\<rparr> (executionHandler s)
            = (js1, Some err) \<longrightarrow>
        (\<exists>r added.
           run_step disabled (stored, invoked, results) s =
             (stored @ added, invoked @ [step_id s], results @ [r])
           \<and> js_store js1 = stored @ added
           \<and> status r = FAILURE
           \<and> set (encounteredTypes r) = e_type ` set added
           \<and> set (declaredTypes r) \<subseteq>
               set (determinePartialDatasetsFromStepExecutionResults (results @ [r]))))"
proof -
  have 1: "e_key e \<in> set (map e_key (js_store js0)) \<longrightarrow>
      addEntity js0 e = Inl (IntegrationError ''DUPLICATE_KEY'' False)
      \<and> (run_handler js pre = (js0, None) \<longrightarrow>
           run_handler js (pre @ AddEntity e # post) =
             (js0, Some (IntegrationError ''DUPLICATE_KEY'' False)))"
    by (simp add: run_handler_append addEntity_duplicate)
  have 3: "\<exists>r added.
           run_step disabled (stored, invoked, results) s =
             (stored @ added, invoked @ [step_id s], results @ [r])
           \<and> js_store js1 = stored @ added
           \<and> status r = FAILURE
           \<and> set (encounteredTypes r) = e_type ` set added
           \<and> set (declaredTypes r) \<subseteq>
               set (determinePartialDatasetsFromStepExecutionResults (results @ [r]))"
    if en: "\<not> disabled (step_id s)"
      and h: "run_handler \<lparr>js_store = stored, js_encounteredTypes = []\<rparr> (executionHandler s)
            = (js1, Some err)"
  proof -
    from run_handler_added [OF h] obtain added where
      a: "js_store js1 = stored @ added" "set (js_encounteredTypes js1) = e_type ` set added"
      by auto
    let ?r = "\<lparr>r_id = step_id s, r_name = step_name s,
                declaredTypes = step_declaredTypes s, partialTypes = step_partialTypes s,
                encounteredTypes = js_encounteredTypes js1, r_dependsOn = step_dependsOn s,
                status = FAILURE\<rparr>"
    have "run_step disabled (stored, invoked, results) s =
        (stored @ added, invoked @ [step_id s], results @ [?r])"
      using en h a(1) by (simp add: run_step_def Let_def)
    moreover have "set (declaredTypes ?r) \<subseteq>
        set (determinePartialDatasetsFromStepExecutionResults (results @ [?r]))"
      by (rule failed_step_datasets) simp
    ultimately show ?thesis
      using a by (intro exI [of _ ?r] exI [of _ added]) simp
  qed
  from 1 3 executeSteps_distinct [of config ordered] show ?thesis by blast
qed

theorem duplicate_key_fails_step_witness:
  "addEntity \<lparr>js_store = [key_a_entity], js_encounteredTypes = [''duplicate_entity'']\<rparr>
      key_a_entity = Inl (IntegrationError ''DUPLICATE_KEY'' False)
   \<and> run_handler \<lparr>js_store = [], js_encounteredTypes = []\<rparr>
        [AddEntity key_a_entity, AddEntity key_a_entity] =
        (\<lparr>js_store = [key_a_entity], js_encounteredTypes = [''duplicate_entity'']\<rparr>,
         Some (IntegrationError ''DUPLICATE_KEY'' False))
   \<and> distinct (map e_key (fst (executeSteps duplicate_across_steps_config
                                   (integrationSteps duplicate_across_steps_config))))
   \<and> (\<exists>r added.
         run_step (\<lambda>sid. False) ([key_a_entity], [''a''], []) duplicate_step_b =
           ([key_a_entity] @ added, [''a''] @ [step_id duplicate_step_b], [] @ [r])
         \<and> [key_a_entity] = [key_a_entity] @ added
         \<and> status r = FAILURE
         \<and> set (encounteredTypes r) = e_type ` set added
         \<and> set (declaredTypes r) \<subseteq>
             set (determinePartialDatasetsFromStepExecutionResults ([] @ [r])))"
  using duplicate_key_fails_step
    [of key_a_entity
        "\<lparr>js_store = [key_a_entity], js_encounteredTypes = [''duplicate_entity'']\<rparr>"
        "\<lparr>js_store = [], js_encounteredTypes = []\<rparr>"
        "[AddEntity key_a_entity]" "[]"
        duplicate_across_steps_config "integrationSteps duplicate_across_steps_config"
        "\<lambda>sid. False" duplicate_step_b "[key_a_entity]"
        "\<lparr>js_store = [key_a_entity], js_encounteredTypes = []\<rparr>"
        "IntegrationError ''DUPLICATE_KEY'' False" "[''a'']" "[]"]
  by (simp add: key_a_entity_def duplicate_step_b_def dup_entity_def addEntity_def add_uniq_def)

text \<open>
  The claim as stated has the types written before the duplicate flow into the partial
  datasets. A step that declares \<open>declared_entity\<close> and adds two entities of type
  \<open>undeclared_entity\<close> with the same key fails with \<open>undeclared_entity\<close> among its
  encountered types, and the partial datasets hold \<open>declared_entity\<close> alone.
\<close>

theorem undeclared_type_counterexample:
  "executeIntegrationInstance undeclared_type_config =
     ([''a''],
      Inr \<lparr>integrationStepResults =
             [\<lparr>r_id = ''a'', r_name = ''a'', declaredTypes = [''declared_entity''],
               partialTypes = [], encounteredTypes = [''undeclared_entity''],
               r_dependsOn = None, status = FAILURE\<rparr>],
           partialDatasets_types = [''declared_entity'']\<rparr>)"
  by (simp add: undeclared_type_config_def run_eval)

end
